theory Spec2Isabelle
  imports
    Main
    "HOL-Library.AList"
    "HOL-Library.Sublist"
    "HOL-Library.Char_ord"
    "HOL-Library.List_Lexorder"
    "HOL-Library.Multiset"
begin

chapter \<open>The metadata and file consistency engine of the image gallery server\<close>

text \<open>
  The development embeds the final version of \<^verbatim>\<open>server.js\<close> (the last of the versions
  the file holds): the metadata store, the startup reconciliation, the group views,
  ingestion of uploads and links, deletion and reordering.

  Strings are byte lists. The functions of the JavaScript runtime and of Node's
  \<^verbatim>\<open>path\<close> module that the server calls are written out here as they are documented
  (POSIX paths; ASCII letters for case folding); the locale-sensitive comparison of
  strings is a parameter.
\<close>

section \<open>Runtime library: strings, paths, sorting\<close>

text \<open>JavaScript truthiness of an optional string, and \<^verbatim>\<open>a || b\<close> on it.\<close>

definition truthy :: "string option \<Rightarrow> bool" where
  "truthy v = (case v of None \<Rightarrow> False | Some s \<Rightarrow> s \<noteq> [])"

definition orElse :: "string option \<Rightarrow> string \<Rightarrow> string" where
  "orElse v d = (case v of None \<Rightarrow> d | Some s \<Rightarrow> if s = [] then d else s)"

text \<open>\<^verbatim>\<open>/\d/\<close> matches the ten ASCII digits; \<^verbatim>\<open>parseInt(ds, 10)\<close> on a run of digits.\<close>

definition isDigit :: "char \<Rightarrow> bool" where
  "isDigit c = (c \<in> set ''0123456789'')"

definition digitValue :: "char \<Rightarrow> int" where
  "digitValue c = int (of_char c) - 48"

definition parseInt :: "string \<Rightarrow> int" where
  "parseInt ds = foldl (\<lambda>n c. 10 * n + digitValue c) 0 ds"

text \<open>The first match of \<^verbatim>\<open>/\d+/\<close>: the leftmost maximal run of digits, if any.\<close>

definition firstDigitRun :: "string \<Rightarrow> string option" where
  "firstDigitRun s =
     (case dropWhile (\<lambda>c. \<not> isDigit c) s of
        [] \<Rightarrow> None
      | d # ds \<Rightarrow> Some (takeWhile isDigit (d # ds)))"

definition toLowerChar :: "char \<Rightarrow> char" where
  "toLowerChar c =
     (if CHR ''A'' \<le> c \<and> c \<le> CHR ''Z'' then char_of (of_char c + (32::nat)) else c)"

definition toLowerCase :: "string \<Rightarrow> string" where
  "toLowerCase s = map toLowerChar s"

text \<open>\<^verbatim>\<open>s.startsWith(p)\<close> is \<^const>\<open>prefix\<close>; \<^verbatim>\<open>s.includes(sub)\<close>:\<close>

fun str_includes :: "string \<Rightarrow> string \<Rightarrow> bool" where
  "str_includes [] sub = (sub = [])"
| "str_includes (c # cs) sub = (prefix sub (c # cs) \<or> str_includes cs sub)"

text \<open>
  \<^verbatim>\<open>s.split(sep)\<close> for a non-empty separator (the server passes no other): the pieces
  between the non-overlapping occurrences of \<open>sep\<close>, found from the left. The result is
  never empty.
\<close>

function splitAux :: "string \<Rightarrow> string \<Rightarrow> string \<Rightarrow> string list" where
  "splitAux sep acc [] = [rev acc]"
| "splitAux sep acc (c # cs) =
     (if sep \<noteq> [] \<and> prefix sep (c # cs)
      then rev acc # splitAux sep [] (drop (length sep) (c # cs))
      else splitAux sep (c # acc) cs)"
  by pat_completeness auto
termination
  by (relation "measure (\<lambda>(sep, acc, s). length s)") (auto simp: neq_Nil_conv)

definition split :: "string \<Rightarrow> string \<Rightarrow> string list" where
  "split s sep = splitAux sep [] s"

text \<open>\<^verbatim>\<open>s.split(a)[1]?.split(b)[0]\<close>: undefined when \<open>a\<close> does not occur in \<open>s\<close>.\<close>

definition secondPiece :: "string list \<Rightarrow> string option" where
  "secondPiece ps = (case ps of _ # p # _ \<Rightarrow> Some p | _ \<Rightarrow> None)"

definition firstPiece :: "string list \<Rightarrow> string" where
  "firstPiece ps = (case ps of p # _ \<Rightarrow> p | [] \<Rightarrow> [])"

text \<open>
  Node's \<^verbatim>\<open>path.parse(p)\<close> and \<^verbatim>\<open>path.extname(p)\<close>: the base is the last segment of the
  path, trailing slashes dropped; the extension runs from the last dot of the base to its
  end, and is empty when the base has no dot, when its only dot is its first character,
  or when the base is \<^verbatim>\<open>..\<close>; the name is the base without the extension.
\<close>

definition basename :: "string \<Rightarrow> string" where
  "basename p =
     rev (takeWhile (\<lambda>c. c \<noteq> CHR ''/'') (dropWhile (\<lambda>c. c = CHR ''/'') (rev p)))"

definition extOfBase :: "string \<Rightarrow> string" where
  "extOfBase b =
     (let r = takeWhile (\<lambda>c. c \<noteq> CHR ''.'') (rev b)
      in if CHR ''.'' \<notin> set b \<or> Suc (length r) = length b \<or> b = ''..''
         then [] else CHR ''.'' # rev r)"

definition path_extname :: "string \<Rightarrow> string" where
  "path_extname p = extOfBase (basename p)"

definition path_name :: "string \<Rightarrow> string" where
  "path_name p = (let b = basename p in take (length b - length (extOfBase b)) b)"

text \<open>
  \<^verbatim>\<open>a.localeCompare(b)\<close> is the locale-sensitive comparison of the runtime (the
  collation of its internationalisation library) and no part of this program: the
  functions that call it take it as their parameter \<open>lc\<close>. What the statements below
  require of it is that it compares consistently: swapping the arguments swaps the
  sign of the result, and \<open>lc a b \<le> 0\<close> is transitive.
\<close>

type_synonym collator = "string \<Rightarrow> string \<Rightarrow> int"


text \<open>
  One collation, for the examples: the comparison of two strings by their code units.
\<close>

definition codeUnitOrder :: collator where
  "codeUnitOrder a b = (if a < b then - 1 else if a = b then 0 else 1)"

text \<open>
  \<^verbatim>\<open>xs.sort(cmp)\<close>: a stable sort by the comparator; \<open>x\<close> goes before \<open>y\<close> when
  \<open>cmp x y \<le> 0\<close>.
\<close>

fun insertBy :: "('a \<Rightarrow> 'a \<Rightarrow> int) \<Rightarrow> 'a \<Rightarrow> 'a list \<Rightarrow> 'a list" where
  "insertBy cmp x [] = [x]"
| "insertBy cmp x (y # ys) = (if cmp x y \<le> 0 then x # y # ys else y # insertBy cmp x ys)"

definition arraySort :: "('a \<Rightarrow> 'a \<Rightarrow> int) \<Rightarrow> 'a list \<Rightarrow> 'a list" where
  "arraySort cmp xs = foldr (insertBy cmp) xs []"

text \<open>\<^verbatim>\<open>xs.indexOf(x)\<close>: the first position of \<open>x\<close>, or \<open>-1\<close>.\<close>

fun indexOf :: "'a list \<Rightarrow> 'a \<Rightarrow> int" where
  "indexOf [] x = - 1"
| "indexOf (y # ys) x =
     (if y = x then 0 else (let i = indexOf ys x in if i = - 1 then - 1 else i + 1))"

section \<open>Data model\<close>

text \<open>
  A metadata record. Every field of the JSON object is optional; \<open>isExternal\<close> is read
  by truthiness only. The field \<^verbatim>\<open>type\<close> is \<open>mediaType\<close> here.
\<close>

record meta =
  category :: "string option"
  description :: "string option"
  uploadDate :: "string option"
  mediaType :: "string option"
  groupId :: "string option"
  order :: "int option"
  isExternal :: bool
  externalUrl :: "string option"
  embedUrl :: "string option"
  videoType :: "string option"
  titleImageId :: "string option"

text \<open>
  The metadata object: keys in insertion order, as \<^verbatim>\<open>Object.keys\<close> lists them.
  \<^const>\<open>map_of\<close> is the lookup \<^verbatim>\<open>metadata[key]\<close>, \<^const>\<open>AList.update\<close> the assignment,
  \<^const>\<open>AList.delete\<close> the \<^verbatim>\<open>delete\<close>.
\<close>

type_synonym metadata = "(string \<times> meta) list"

section \<open>Metadata store: the primary file and its mirror\<close>

text \<open>
  A metadata file on disk is missing, present but unreadable, or readable; what is read
  parses as JSON or does not. The exceptions of \<^verbatim>\<open>fs\<close> and \<^verbatim>\<open>JSON.parse\<close> are values,
  and every \<^verbatim>\<open>try/catch\<close> of the source is a case distinction on them.
\<close>

datatype content = Garbage | Json metadata

datatype mfile = Missing | Unreadable | File content

datatype fsError = ENOENT | EACCES | SyntaxError

text \<open>
  \<open>metadataFile\<close> is \<^verbatim>\<open>image-metadata.json\<close> in the data directory,
  \<open>backupMetadataFile\<close> its copy in the backups directory. Writing a file (to a
  temporary name, then renaming over the target) succeeds or throws as one step.
\<close>

record store =
  metadataFile :: mfile
  backupMetadataFile :: mfile
  metadataFileWritable :: bool
  backupMetadataFileWritable :: bool

definition existsSync :: "mfile \<Rightarrow> bool" where
  "existsSync f = (f \<noteq> Missing)"

definition readFileSync :: "mfile \<Rightarrow> fsError + content" where
  "readFileSync f =
     (case f of Missing \<Rightarrow> Inl ENOENT | Unreadable \<Rightarrow> Inl EACCES | File c \<Rightarrow> Inr c)"

definition JSON_parse :: "content \<Rightarrow> fsError + metadata" where
  "JSON_parse c = (case c of Garbage \<Rightarrow> Inl SyntaxError | Json m \<Rightarrow> Inr m)"

definition writeMetadataFile :: "content \<Rightarrow> store \<Rightarrow> fsError + store" where
  "writeMetadataFile c s =
     (if metadataFileWritable s then Inr (s\<lparr>metadataFile := File c\<rparr>) else Inl EACCES)"

definition writeBackupMetadataFile :: "content \<Rightarrow> store \<Rightarrow> fsError + store" where
  "writeBackupMetadataFile c s =
     (if backupMetadataFileWritable s then Inr (s\<lparr>backupMetadataFile := File c\<rparr>)
      else Inl EACCES)"

text \<open>
  The first \<^verbatim>\<open>try\<close> block of \<^verbatim>\<open>loadMetadataWithFallback\<close>: \<open>Inr (Some m)\<close> is the
  \<^verbatim>\<open>return\<close>, \<open>Inr None\<close> falling out of the block, \<open>Inl e\<close> the exception thrown in it.
\<close>

definition tryPrimary :: "store \<Rightarrow> fsError + metadata option" where
  "tryPrimary s =
     (if existsSync (metadataFile s) then
        (case readFileSync (metadataFile s) of
           Inl e \<Rightarrow> Inl e
         | Inr data \<Rightarrow>
             (case JSON_parse data of Inl e \<Rightarrow> Inl e | Inr m \<Rightarrow> Inr (Some m)))
      else Inr None)"

text \<open>
  The second block: the backup is read and parsed, then written to the primary
  location; an exception of that write is caught inside the block and only logged.
\<close>

definition tryBackup :: "store \<Rightarrow> fsError + (metadata \<times> store) option" where
  "tryBackup s =
     (if existsSync (backupMetadataFile s) then
        (case readFileSync (backupMetadataFile s) of
           Inl e \<Rightarrow> Inl e
         | Inr data \<Rightarrow>
             (case JSON_parse data of
                Inl e \<Rightarrow> Inl e
              | Inr m \<Rightarrow>
                  (case writeMetadataFile data s of
                     Inl restoreError \<Rightarrow> Inr (Some (m, s))
                   | Inr s' \<Rightarrow> Inr (Some (m, s')))))
      else Inr None)"

definition loadMetadataWithFallback :: "store \<Rightarrow> fsError + (metadata \<times> store)" where
  "loadMetadataWithFallback s =
     (case tryPrimary s of
        Inr (Some m) \<Rightarrow> Inr (m, s)
      | _ \<Rightarrow>
         (case tryBackup s of
            Inr (Some r) \<Rightarrow> Inr r
          | _ \<Rightarrow> Inr ([], s)))"

definition loadMetadata :: "store \<Rightarrow> fsError + (metadata \<times> store)" where
  "loadMetadata s = loadMetadataWithFallback s"

text \<open>
  \<^verbatim>\<open>saveMetadata\<close>: a failed write of the primary is caught and logged (the temporary
  file is removed), and the mirror is then not written; a failed write of the mirror is
  logged only.
\<close>

definition saveMetadata :: "metadata \<Rightarrow> store \<Rightarrow> store" where
  "saveMetadata m s =
     (case writeMetadataFile (Json m) s of
        Inl error \<Rightarrow> s
      | Inr s1 \<Rightarrow>
          (case writeBackupMetadataFile (Json m) s1 of
             Inl backupError \<Rightarrow> s1
           | Inr s2 \<Rightarrow> s2))"

section \<open>The server state seen by the handlers\<close>

text \<open>
  The handlers below work on the metadata object that \<^verbatim>\<open>loadMetadata()\<close> returns and
  hand the changed object to \<^verbatim>\<open>saveMetadata\<close>; \<open>metadataMap\<close> is that object, for a
  metadata file that reads and writes (see \<open>save_then_load\<close> below). \<open>uploadsDir\<close> is the
  listing of the uploads directory, each file with its modification time, in the order
  \<^verbatim>\<open>readdirSync\<close> returns it. \<open>backupsDir\<close> holds the snapshot directories of the backups
  directory by name.
\<close>

type_synonym dirent = "string \<times> string"

record snapshot =
  snapMetadata :: "metadata option"
  snapUploads :: "dirent list option"

record state =
  metadataMap :: metadata
  uploadsDir :: "dirent list"
  backupsDir :: "(string \<times> snapshot) list"

definition readdirSync :: "dirent list \<Rightarrow> string list" where
  "readdirSync dir = map fst dir"

definition mediaExtensions :: "string list" where
  "mediaExtensions =
     [''.jpg'', ''.jpeg'', ''.png'', ''.gif'', ''.webp'',
      ''.mp4'', ''.webm'', ''.ogg'', ''.mov'', ''.avi'']"

definition isMediaFile :: "string \<Rightarrow> bool" where
  "isMediaFile f = (toLowerCase (path_extname f) \<in> set mediaExtensions)"

text \<open>\<^verbatim>\<open>file.match(/\.(mp4|webm|ogg|mov|avi)$/i)\<close>\<close>

definition isVideoName :: "string \<Rightarrow> bool" where
  "isVideoName f =
     list_ex (\<lambda>e. suffix (CHR ''.'' # e) (toLowerCase f))
       [''mp4'', ''webm'', ''ogg'', ''mov'', ''avi'']"

text \<open>
  \<^verbatim>\<open>fs.copyFileSync(src, dest)\<close> into a directory: the file is created, or overwritten
  in place, with the time of the copy.
\<close>

definition copyFileSync :: "string \<Rightarrow> string \<Rightarrow> dirent list \<Rightarrow> dirent list" where
  "copyFileSync now name dir = AList.update name now dir"

definition copyFiles :: "string \<Rightarrow> dirent list \<Rightarrow> dirent list \<Rightarrow> dirent list" where
  "copyFiles now src dest = fold (copyFileSync now) (readdirSync src) dest"

section \<open>Backup manager\<close>

text \<open>
  The name of a snapshot, \<^verbatim>\<open>new Date().toISOString().replace(/[:.]/g, '-')\<close> after
  \<^verbatim>\<open>backup-\<close>, and \<^verbatim>\<open>createBackup\<close>: the metadata file (it exists once the metadata
  has been saved) and every file of the uploads directory are copied into the snapshot
  directory of that name.
\<close>

definition backupNameOf :: "string \<Rightarrow> string" where
  "backupNameOf now =
     ''backup-'' @ map (\<lambda>c. if c = CHR '':'' \<or> c = CHR ''.'' then CHR ''-'' else c) now"

definition createBackup :: "string \<Rightarrow> state \<Rightarrow> string \<times> state" where
  "createBackup now st =
     (let backupName = backupNameOf now;
          old = (case map_of (backupsDir st) backupName of
                   None \<Rightarrow> \<lparr>snapMetadata = None, snapUploads = None\<rparr>
                 | Some snap \<Rightarrow> snap);
          snap = \<lparr>snapMetadata = Some (metadataMap st),
                  snapUploads = Some (copyFiles now (uploadsDir st)
                                       (case snapUploads old of None \<Rightarrow> [] | Some d \<Rightarrow> d))\<rparr>
      in (backupName, st\<lparr>backupsDir := AList.update backupName snap (backupsDir st)\<rparr>))"

text \<open>
  \<^verbatim>\<open>restoreFromBackup\<close>: the snapshot's metadata file is copied over the primary one,
  its files are copied into the uploads directory, and nothing is removed first.
  \<open>False\<close> is the caught \<^verbatim>\<open>Backup not found\<close>.
\<close>

definition restoreFromBackup :: "string \<Rightarrow> string \<Rightarrow> state \<Rightarrow> bool \<times> state" where
  "restoreFromBackup now backupName st =
     (case map_of (backupsDir st) backupName of
        None \<Rightarrow> (False, st)
      | Some snap \<Rightarrow>
          (let st1 = (case snapMetadata snap of
                        None \<Rightarrow> st
                      | Some m \<Rightarrow> st\<lparr>metadataMap := m\<rparr>);
               st2 = (case snapUploads snap of
                        None \<Rightarrow> st1
                      | Some files \<Rightarrow>
                          st1\<lparr>uploadsDir := copyFiles now files (uploadsDir st1)\<rparr>)
           in (True, st2)))"

text \<open>\<^verbatim>\<open>checkStoragePersistence\<close> writes its marker file into the uploads directory.\<close>

definition checkStoragePersistence :: "string \<Rightarrow> state \<Rightarrow> state" where
  "checkStoragePersistence now st =
     st\<lparr>uploadsDir := AList.update ''.persistence-marker'' now (uploadsDir st)\<rparr>"

section \<open>Filesystem reconciler\<close>

text \<open>
  The record \<^verbatim>\<open>syncMetadataWithFiles\<close> writes for a file without metadata.
\<close>

definition defaultMeta :: "string \<Rightarrow> string \<Rightarrow> meta" where
  "defaultMeta file mtime =
     \<lparr>category = Some ''fun'',
      description = Some [],
      uploadDate = Some mtime,
      mediaType = Some (if isVideoName file then ''video'' else ''image''),
      groupId = None,
      order = Some 999,
      isExternal = False,
      externalUrl = None,
      embedUrl = None,
      videoType = None,
      titleImageId = None\<rparr>"

text \<open>
  One turn of the loop over \<^verbatim>\<open>Object.keys(metadata)\<close>, on the metadata object and the
  flag \<^verbatim>\<open>updated\<close>.
\<close>

definition pruneStep :: "string list \<Rightarrow> string \<Rightarrow> metadata \<times> bool \<Rightarrow> metadata \<times> bool" where
  "pruneStep fileSet key acc =
     (case acc of (md, updated) \<Rightarrow>
        if \<not> (case map_of md key of None \<Rightarrow> False | Some r \<Rightarrow> isExternal r)
           \<and> key \<notin> set fileSet
        then (AList.delete key md, True)
        else (md, updated))"

text \<open>One turn of the loop over the media files on disk.\<close>

definition addStep :: "dirent \<Rightarrow> metadata \<times> bool \<Rightarrow> metadata \<times> bool" where
  "addStep ent acc =
     (case ent of (file, mtime) \<Rightarrow>
      case acc of (md, updated) \<Rightarrow>
        (case map_of md file of
           None \<Rightarrow> (AList.update file (defaultMeta file mtime) md, True)
         | Some r \<Rightarrow> (md, updated)))"

text \<open>
  The two loops of \<^verbatim>\<open>syncMetadataWithFiles\<close> on the loaded metadata and the directory
  listing: the result is the metadata object and the flag \<^verbatim>\<open>updated\<close>. (\<^verbatim>\<open>fileSet\<close> is a
  set of names; a directory lists no name twice.)
\<close>

definition reconcile :: "metadata \<Rightarrow> dirent list \<Rightarrow> metadata \<times> bool" where
  "reconcile md dir =
     (let ents = filter (\<lambda>e. isMediaFile (fst e)) dir;
          fileSet = map fst ents
      in fold addStep ents (fold (pruneStep fileSet) (map fst md) (md, False)))"

text \<open>
  The snapshot directories by name, latest first:
  \<^verbatim>\<open>filter(startsWith('backup-')).sort().reverse()\<close>.
\<close>

definition listBackups :: "state \<Rightarrow> string list" where
  "listBackups st = rev (sort (filter (prefix ''backup-'') (map fst (backupsDir st))))"

text \<open>
  The first block of \<^verbatim>\<open>syncMetadataWithFiles\<close>: with no media file in the uploads
  directory and a snapshot at hand, the latest snapshot is restored.
\<close>

definition restoreIfEmpty :: "string \<Rightarrow> state \<Rightarrow> state" where
  "restoreIfEmpty now st =
     (let files = filter isMediaFile (readdirSync (uploadsDir st));
          isEmpty = (files = [])
      in if isEmpty then
           (case listBackups st of
              [] \<Rightarrow> st
            | b # bs \<Rightarrow> snd (restoreFromBackup now b st))
         else st)"

text \<open>
  The statements of the \<^verbatim>\<open>try\<close> block of \<^verbatim>\<open>syncMetadataWithFiles\<close>, one after the
  other: the restore, on the listing of the uploads directory taken at the start of the
  block; the persistence check; then the two loops, on the metadata as loaded and on the
  listing taken by the statement before them. The metadata is saved only when
  \<^verbatim>\<open>updated\<close> is set, and the log says which of the two happened.
\<close>

datatype syncOutcome = AlreadyDeclared string | Synced | InSync

definition syncStatements :: "string \<Rightarrow> state \<Rightarrow> syncOutcome \<times> state" where
  "syncStatements now st =
     (let st2 = checkStoragePersistence now (restoreIfEmpty now st)
      in case reconcile (metadataMap st2) (uploadsDir st2) of
           (md, updated) \<Rightarrow>
             (if updated then (Synced, st2\<lparr>metadataMap := md\<rparr>) else (InSync, st2)))"

text \<open>
  The names that block declares with \<^verbatim>\<open>const\<close> and \<^verbatim>\<open>let\<close>, in the order of the source.
  (The declarations inside the nested blocks and the arrow functions belong to those
  scopes.) The listing of the uploads directory is declared as \<^verbatim>\<open>files\<close> before the
  restore and again after \<^verbatim>\<open>metadata\<close>.
\<close>

definition tryBlockDeclarations :: "string list" where
  "tryBlockDeclarations =
     [''files'', ''isEmpty'', ''metadataExists'', ''persistenceCheck'', ''metadata'',
      ''files'', ''fileSet'', ''updated'', ''imageCount'', ''videoCount'', ''externalCount'']"

text \<open>
  A block whose lexical declarations name something twice is a syntax error, raised when
  the code is compiled and before any of it runs (\<^verbatim>\<open>Identifier 'x' has already been
  declared\<close>, at the first declaration that repeats a name).
\<close>

fun redeclared :: "string list \<Rightarrow> string list \<Rightarrow> string option" where
  "redeclared seen [] = None"
| "redeclared seen (x # xs) = (if x \<in> set seen then Some x else redeclared (x # seen) xs)"

text \<open>
  \<^verbatim>\<open>syncMetadataWithFiles\<close> as the runtime takes it: its block is checked first, and the
  statements are run only if the block declares no name twice. A rejected block leaves
  the metadata and the directories as they are. With the declarations above the block
  is rejected, whatever the state.
\<close>

definition syncMetadataWithFiles :: "string \<Rightarrow> state \<Rightarrow> syncOutcome \<times> state" where
  "syncMetadataWithFiles now st =
     (case redeclared [] tryBlockDeclarations of
        Some x \<Rightarrow> (AlreadyDeclared x, st)
      | None \<Rightarrow> syncStatements now st)"

section \<open>Responses\<close>

text \<open>\<^verbatim>\<open>res.status(400)\<close> and \<^verbatim>\<open>res.status(404)\<close> with the error message.\<close>

datatype error = BadRequest string | NotFound string

section \<open>Group assembler\<close>

text \<open>\<^verbatim>\<open>a || b\<close> on two optional strings.\<close>

definition orOpt :: "string option \<Rightarrow> string option \<Rightarrow> string option" where
  "orOpt a b = (if truthy a then a else b)"

text \<open>\<^verbatim>\<open>meta?.order !== undefined ? meta.order : 999\<close>\<close>

definition orderOr999 :: "meta option \<Rightarrow> int" where
  "orderOr999 fm =
     (case fm of None \<Rightarrow> 999 | Some r \<Rightarrow> (case order r of None \<Rightarrow> 999 | Some n \<Rightarrow> n))"

text \<open>
  The loop that looks for a title image id: the first member, in the order of the list,
  whose metadata record has a truthy \<^verbatim>\<open>titleImageId\<close>.
\<close>

fun findTitleImageId :: "metadata \<Rightarrow> string list \<Rightarrow> string option" where
  "findTitleImageId md [] = None"
| "findTitleImageId md (i # ids) =
     (case map_of md i of
        None \<Rightarrow> findTitleImageId md ids
      | Some fm \<Rightarrow>
          if truthy (titleImageId fm) then titleImageId fm else findTitleImageId md ids)"

subsection \<open>\<^verbatim>\<open>GET /api/groups/:groupId\<close>\<close>

text \<open>
  An entry of \<^verbatim>\<open>groupFiles\<close>. (The fields \<^verbatim>\<open>externalUrl\<close>, \<^verbatim>\<open>embedUrl\<close> and
  \<^verbatim>\<open>videoType\<close> of a link entry are copies of the record's and are left out.)
\<close>

record groupFile =
  fileId :: string
  fileUrl :: "string option"
  fileName :: string
  fileType :: string
  fileExternal :: bool

record titledFile = groupFile +
  isTitle :: bool

record groupDetail =
  detailId :: string
  detailFiles :: "titledFile list"
  detailCategory :: string
  detailDescription :: string
  detailUploadDate :: string

definition groupFilesOnDisk :: "metadata \<Rightarrow> string list \<Rightarrow> string \<Rightarrow> groupFile list" where
  "groupFilesOnDisk md files gid =
     concat (map (\<lambda>file.
       (case map_of md file of
          None \<Rightarrow> []
        | Some fileMeta \<Rightarrow>
            if groupId fileMeta = Some gid \<and> isMediaFile file
            then [\<lparr>fileId = file, fileUrl = Some (''/uploads/'' @ file), fileName = file,
                   fileType = orElse (mediaType fileMeta) ''image'', fileExternal = False\<rparr>]
            else [])) files)"

definition groupLinks :: "metadata \<Rightarrow> string \<Rightarrow> groupFile list" where
  "groupLinks md gid =
     concat (map (\<lambda>linkId.
       (case map_of md linkId of
          None \<Rightarrow> []
        | Some fileMeta \<Rightarrow>
            if isExternal fileMeta \<and> groupId fileMeta = Some gid
            then [\<lparr>fileId = linkId,
                   fileUrl = orOpt (embedUrl fileMeta) (externalUrl fileMeta),
                   fileName = linkId, fileType = ''video'', fileExternal = True\<rparr>]
            else [])) (map fst md))"

definition compareById :: "collator \<Rightarrow> metadata \<Rightarrow> string \<Rightarrow> string \<Rightarrow> int" where
  "compareById lc md a b =
     (let orderA = orderOr999 (map_of md a);
          orderB = orderOr999 (map_of md b)
      in if orderA \<noteq> orderB then orderA - orderB else lc a b)"

definition getGroup ::
  "collator \<Rightarrow> string \<Rightarrow> string \<Rightarrow> state \<Rightarrow> error + groupDetail"
where
  "getGroup lc now gid st =
     (let md = metadataMap st;
          files = readdirSync (uploadsDir st);
          groupFiles = groupFilesOnDisk md files gid @ groupLinks md gid
      in case groupFiles of
           [] \<Rightarrow> Inl (NotFound ''Group not found'')
         | firstFile # rest \<Rightarrow>
             (let fileMeta = map_of md (fileId firstFile);
                  found = findTitleImageId md (map fileId groupFiles);
                  sorted = arraySort (\<lambda>a b. compareById lc md (fileId a) (fileId b)) groupFiles;
                  filesWithTitle =
                    map (\<lambda>file. groupFile.extend file
                           \<lparr>isTitle = (case found of
                                         Some t \<Rightarrow> fileId file = t
                                       | None \<Rightarrow> (case sorted of
                                                    [] \<Rightarrow> False
                                                  | f0 # fs \<Rightarrow> fileId file = fileId f0))\<rparr>)
                        sorted
              in Inr \<lparr>detailId = gid,
                      detailFiles = filesWithTitle,
                      detailCategory = orElse (Option.bind fileMeta category) ''fun'',
                      detailDescription = orElse (Option.bind fileMeta description) [],
                      detailUploadDate = orElse (Option.bind fileMeta uploadDate) now\<rparr>))"

subsection \<open>\<^verbatim>\<open>GET /api/images\<close>\<close>

text \<open>
  An entry of a group's \<^verbatim>\<open>files\<close> in the listing (link fields left out as above), a
  group under assembly, and an item of the response.
\<close>

record member =
  memberId :: string
  memberUrl :: "string option"
  memberFilename :: string
  memberType :: string
  memberOrder :: int
  memberExternal :: bool

record group =
  groupIdOf :: string
  groupMembers :: "member list"
  groupCategory :: string
  groupDescription :: string
  groupUploadDate :: string
  titleImage :: "member option"

record listItem =
  listedId :: string
  listedUrl :: "string option"
  listedFilename :: string
  listedCategory :: string
  listedDescription :: string
  listedUploadDate :: string
  listedType :: string
  isGroup :: bool
  listedFiles :: "member list"

text \<open>
  \<^verbatim>\<open>if (!groups[gid]) groups[gid] = {...}; groups[gid].files.push(m)\<close>: a new group
  inherits category, description and date from the member that creates it.
\<close>

definition pushToGroup ::
  "string \<Rightarrow> string \<Rightarrow> meta \<Rightarrow> member \<Rightarrow> (string \<times> group) list \<Rightarrow> (string \<times> group) list"
where
  "pushToGroup now gid fileMeta m groups =
     (let g = (case map_of groups gid of
                 None \<Rightarrow>
                   \<lparr>groupIdOf = gid, groupMembers = [],
                    groupCategory = orElse (category fileMeta) ''fun'',
                    groupDescription = orElse (description fileMeta) [],
                    groupUploadDate = orElse (uploadDate fileMeta) now,
                    titleImage = None\<rparr>
               | Some g \<Rightarrow> g)
      in AList.update gid (g\<lparr>groupMembers := groupMembers g @ [m]\<rparr>) groups)"

text \<open>One turn of the loop over \<^verbatim>\<open>Object.keys(metadata)\<close> that collects the links.\<close>

definition linkStep ::
  "string \<Rightarrow> metadata \<Rightarrow> string \<Rightarrow> listItem list \<times> (string \<times> group) list
     \<Rightarrow> listItem list \<times> (string \<times> group) list"
where
  "linkStep now md linkId acc =
     (case acc of (individualFiles, groups) \<Rightarrow>
        (case map_of md linkId of
           None \<Rightarrow> acc
         | Some fileMeta \<Rightarrow>
             if isExternal fileMeta then
               (let single =
                      (individualFiles @
                         [\<lparr>listedId = linkId,
                           listedUrl = orOpt (embedUrl fileMeta) (externalUrl fileMeta),
                           listedFilename = linkId,
                           listedCategory = orElse (category fileMeta) ''fun'',
                           listedDescription = orElse (description fileMeta) [],
                           listedUploadDate = orElse (uploadDate fileMeta) now,
                           listedType = orElse (mediaType fileMeta) ''video'',
                           isGroup = False, listedFiles = []\<rparr>],
                       groups)
                in case groupId fileMeta of
                     None \<Rightarrow> single
                   | Some gid \<Rightarrow>
                       if gid = [] then single
                       else
                         (individualFiles,
                          pushToGroup now gid fileMeta
                            \<lparr>memberId = linkId,
                             memberUrl = orOpt (embedUrl fileMeta) (externalUrl fileMeta),
                             memberFilename = linkId, memberType = ''video'',
                             memberOrder = orderOr999 (Some fileMeta),
                             memberExternal = True\<rparr> groups))
             else acc))"

text \<open>One turn of the loop over the media files on disk.\<close>

definition fileStep ::
  "string \<Rightarrow> metadata \<Rightarrow> string \<Rightarrow> listItem list \<times> (string \<times> group) list
     \<Rightarrow> listItem list \<times> (string \<times> group) list"
where
  "fileStep now md file acc =
     (case acc of (individualFiles, groups) \<Rightarrow>
        (let fileMeta = map_of md file;
             single =
               (individualFiles @
                  [\<lparr>listedId = file, listedUrl = Some (''/uploads/'' @ file), listedFilename = file,
                    listedCategory = orElse (Option.bind fileMeta category) ''fun'',
                    listedDescription = orElse (Option.bind fileMeta description) [],
                    listedUploadDate = orElse (Option.bind fileMeta uploadDate) now,
                    listedType = orElse (Option.bind fileMeta mediaType) ''image'',
                    isGroup = False, listedFiles = []\<rparr>],
                groups)
         in case fileMeta of
              None \<Rightarrow> single
            | Some fm \<Rightarrow>
                (case groupId fm of
                   None \<Rightarrow> single
                 | Some gid \<Rightarrow>
                     if gid = [] then single
                     else
                       (individualFiles,
                        pushToGroup now gid fm
                          \<lparr>memberId = file, memberUrl = Some (''/uploads/'' @ file),
                           memberFilename = file,
                           memberType = orElse (mediaType fm) ''image'',
                           memberOrder = orderOr999 fileMeta,
                           memberExternal = False\<rparr> groups))))"

definition compareMember :: "collator \<Rightarrow> member \<Rightarrow> member \<Rightarrow> int" where
  "compareMember lc a b =
     (if memberOrder a \<noteq> memberOrder b then memberOrder a - memberOrder b
      else lc (memberId a) (memberId b))"

text \<open>
  The body of the loop over the groups: sort the members, look for a title image id in
  the sorted order, default to the first member, and fall back to the first member
  when no member has the id found. (\<open>None\<close> stands for the exception the source would
  throw on a group without members; a group is created with its first member.)
\<close>

definition resolveTitle :: "collator \<Rightarrow> metadata \<Rightarrow> group \<Rightarrow> group" where
  "resolveTitle lc md g =
     (let sorted = arraySort (compareMember lc) (groupMembers g);
          found = findTitleImageId md (map memberId sorted);
          titleId = (case found of
                       Some t \<Rightarrow> Some t
                     | None \<Rightarrow> (case sorted of [] \<Rightarrow> None | f0 # fs \<Rightarrow> Some (memberId f0)));
          titleFile = (case find (\<lambda>f. Some (memberId f) = titleId) sorted of
                         Some f \<Rightarrow> Some f
                       | None \<Rightarrow> (case sorted of [] \<Rightarrow> None | f0 # fs \<Rightarrow> Some f0))
      in g\<lparr>groupMembers := sorted, titleImage := titleFile\<rparr>)"

text \<open>The individual items and the groups, titles resolved.\<close>

definition assemble ::
  "collator \<Rightarrow> string \<Rightarrow> state \<Rightarrow> listItem list \<times> (string \<times> group) list"
where
  "assemble lc now st =
     (let md = metadataMap st;
          mediaFiles = filter isMediaFile (readdirSync (uploadsDir st));
          acc = fold (fileStep now md) mediaFiles (fold (linkStep now md) (map fst md) ([], []))
      in (fst acc, map (\<lambda>(gid, g). (gid, resolveTitle lc md g)) (snd acc)))"

definition groupItem :: "group \<Rightarrow> listItem" where
  "groupItem g =
     \<lparr>listedId = groupIdOf g,
      listedUrl = Option.bind (titleImage g) memberUrl,
      listedFilename = (case titleImage g of None \<Rightarrow> [] | Some t \<Rightarrow> memberFilename t),
      listedCategory = groupCategory g,
      listedDescription = groupDescription g,
      listedUploadDate = groupUploadDate g,
      listedType = ''group'', isGroup = True, listedFiles = groupMembers g\<rparr>"

definition getImages :: "collator \<Rightarrow> string \<Rightarrow> state \<Rightarrow> listItem list" where
  "getImages lc now st =
     (case assemble lc now st of (individualFiles, groups) \<Rightarrow>
        arraySort (\<lambda>a b. lc (listedUploadDate b) (listedUploadDate a))
          (individualFiles @ map (\<lambda>(gid, g). groupItem g) groups))"

subsection \<open>\<^verbatim>\<open>GET /api/groups/:groupId/download\<close>\<close>




section \<open>Upload and link ingestion\<close>

text \<open>
  \<^verbatim>\<open>extractOrderFromFilename\<close>: the first run of digits of the name without its
  extension, as a zero-based order when it reads as a number from 1 to 9999.
\<close>

definition extractOrderFromFilename :: "string \<Rightarrow> int option" where
  "extractOrderFromFilename filename =
     (let nameWithoutExt = path_name filename in
      case firstDigitRun nameWithoutExt of
        Some numberMatch \<Rightarrow>
          (let number = parseInt numberMatch
           in if number \<ge> 1 \<and> number \<le> 9999 then Some (number - 1) else None)
      | None \<Rightarrow> None)"

text \<open>
  The loop both ingestion handlers run when the name gives no order and a group id is
  supplied: the largest order among the files of the uploads directory whose metadata
  record is in the group, from \<open>-1\<close>.
\<close>

definition maxOrderStep :: "metadata \<Rightarrow> string \<Rightarrow> string \<Rightarrow> int \<Rightarrow> int" where
  "maxOrderStep md gid file maxOrder =
     (case map_of md file of
        None \<Rightarrow> maxOrder
      | Some fileMeta \<Rightarrow>
          if groupId fileMeta = Some gid then
            (case order fileMeta of None \<Rightarrow> maxOrder | Some n \<Rightarrow> max maxOrder n)
          else maxOrder)"

definition initialOrder :: "string \<Rightarrow> string option \<Rightarrow> state \<Rightarrow> int" where
  "initialOrder originalFilename gid st =
     (case extractOrderFromFilename originalFilename of
        Some n \<Rightarrow> n
      | None \<Rightarrow>
          if truthy gid then
            fold (maxOrderStep (metadataMap st) (orElse gid []))
              (readdirSync (uploadsDir st)) (- 1) + 1
          else 999)"

subsection \<open>\<^verbatim>\<open>POST /api/upload\<close>\<close>

text \<open>
  The file of the request as multer hands it over (\<open>filename\<close> is the name multer
  generated and stored the bytes under), and the form fields.
\<close>

record uploadedFile =
  originalname :: string
  filename :: string
  mimetype :: string

record uploadBody =
  bodyCategory :: "string option"
  bodyDescription :: "string option"
  bodyGroupId :: "string option"

text \<open>
  The handler, after multer has written the file into the uploads directory. The
  response carries the id and the fields of the stored record.
\<close>

definition postUpload ::
  "string \<Rightarrow> uploadedFile option \<Rightarrow> uploadBody \<Rightarrow> state \<Rightarrow> (error + string \<times> meta) \<times> state"
where
  "postUpload now file body st =
     (case file of
        None \<Rightarrow> (Inl (BadRequest ''No file provided''), st)
      | Some f \<Rightarrow>
          (let st0 = st\<lparr>uploadsDir := AList.update (filename f) now (uploadsDir st)\<rparr>;
               gid = (if truthy (bodyGroupId body) then bodyGroupId body else None);
               fileType = (if prefix ''video/'' (mimetype f) then ''video'' else ''image'');
               ord = initialOrder (originalname f) gid st0;
               record = \<lparr>category = Some (orElse (bodyCategory body) ''fun''),
                         description = Some (orElse (bodyDescription body) []),
                         uploadDate = Some now,
                         mediaType = Some fileType,
                         groupId = gid,
                         order = Some ord,
                         isExternal = False, externalUrl = None, embedUrl = None,
                         videoType = None, titleImageId = None\<rparr>;
               st1 = st0\<lparr>metadataMap := AList.update (filename f) record (metadataMap st0)\<rparr>;
               st2 = (if length (metadataMap st1) mod 5 = 0
                      then snd (createBackup now st1) else st1)
           in (Inr (filename f, record), st2)))"

subsection \<open>\<^verbatim>\<open>POST /api/upload-link\<close>\<close>

record linkBody =
  linkUrl :: "string option"
  linkCategory :: "string option"
  linkDescription :: "string option"
  linkGroupId :: "string option"

text \<open>
  \<open>unique\<close> is \<^verbatim>\<open>Date.now() + '-' + Math.round(Math.random() * 1E9)\<close>. The group id of
  the body is stored as it came.
\<close>

definition postUploadLink ::
  "string \<Rightarrow> string \<Rightarrow> linkBody \<Rightarrow> state \<Rightarrow> (error + string \<times> meta) \<times> state"
where
  "postUploadLink now unique body st =
     (if \<not> truthy (linkUrl body) then (Inl (BadRequest ''URL is required''), st)
      else
        (let url = orElse (linkUrl body) [];
             classified =
               (if str_includes url ''youtube.com'' \<or> str_includes url ''youtu.be'' then
                  (let videoId =
                         (if str_includes url ''youtube.com/watch?v='' then
                            map_option (\<lambda>p. firstPiece (split p ''&''))
                              (secondPiece (split url ''v=''))
                          else if str_includes url ''youtu.be/'' then
                            map_option (\<lambda>p. firstPiece (split p ''?''))
                              (secondPiece (split url ''youtu.be/''))
                          else None)
                   in (''youtube'',
                       if truthy videoId
                       then ''https://www.youtube.com/embed/'' @ orElse videoId []
                       else url))
                else if str_includes url ''drive.google.com'' then
                  (let fileId =
                         (if str_includes url ''/file/d/'' then
                            map_option (\<lambda>p. firstPiece (split p ''/''))
                              (secondPiece (split url ''/file/d/''))
                          else None)
                   in (''googledrive'',
                       if truthy fileId
                       then ''https://drive.google.com/file/d/'' @ orElse fileId [] @ ''/preview''
                       else url))
                else (''unknown'', url));
             linkId = ''link-'' @ unique;
             ord = initialOrder url (linkGroupId body) st;
             record = \<lparr>category = Some (orElse (linkCategory body) ''fun''),
                       description = Some (orElse (linkDescription body) []),
                       uploadDate = Some now,
                       mediaType = Some ''video'',
                       groupId = linkGroupId body,
                       order = Some ord,
                       isExternal = True,
                       externalUrl = Some url,
                       embedUrl = Some (snd classified),
                       videoType = Some (fst classified),
                       titleImageId = None\<rparr>
         in (Inr (linkId, record),
             st\<lparr>metadataMap := AList.update linkId record (metadataMap st)\<rparr>)))"

section \<open>Deletion\<close>

datatype deleted = GroupDeleted nat | LinkDeleted | FileDeleted

text \<open>
  One turn of the loop over the files of the uploads directory when a group is deleted,
  on the metadata object, the directory and \<^verbatim>\<open>deletedCount\<close>; \<^verbatim>\<open>unlinkSync\<close> takes
  the file out of the directory.
\<close>

definition deleteFileStep ::
  "string \<Rightarrow> string \<Rightarrow> metadata \<times> dirent list \<times> nat \<Rightarrow> metadata \<times> dirent list \<times> nat"
where
  "deleteFileStep gid file acc =
     (case acc of (md, dir, deletedCount) \<Rightarrow>
        (case map_of md file of
           None \<Rightarrow> acc
         | Some fileMeta \<Rightarrow>
             if groupId fileMeta = Some gid then
               (if file \<in> set (readdirSync dir)
                then (AList.delete file md, AList.delete file dir, deletedCount + 1)
                else acc)
             else acc))"

text \<open>One turn of the loop over \<^verbatim>\<open>Object.keys(metadata)\<close> that deletes the links.\<close>

definition deleteLinkStep ::
  "string \<Rightarrow> string \<Rightarrow> metadata \<times> dirent list \<times> nat \<Rightarrow> metadata \<times> dirent list \<times> nat"
where
  "deleteLinkStep gid linkId acc =
     (case acc of (md, dir, deletedCount) \<Rightarrow>
        (case map_of md linkId of
           None \<Rightarrow> acc
         | Some fileMeta \<Rightarrow>
             if isExternal fileMeta \<and> groupId fileMeta = Some gid
             then (AList.delete linkId md, dir, deletedCount + 1)
             else acc))"

definition deleteGroup :: "string \<Rightarrow> state \<Rightarrow> nat \<times> state" where
  "deleteGroup gid st =
     (let afterFiles = fold (deleteFileStep gid) (readdirSync (uploadsDir st))
                         (metadataMap st, uploadsDir st, 0);
          afterLinks = fold (deleteLinkStep gid) (map fst (fst afterFiles)) afterFiles
      in case afterLinks of (md, dir, deletedCount) \<Rightarrow>
           (deletedCount, st\<lparr>metadataMap := md, uploadsDir := dir\<rparr>))"

text \<open>\<^verbatim>\<open>DELETE /api/images/:id\<close>, dispatching on the shape of the id.\<close>

definition deleteImage :: "string \<Rightarrow> state \<Rightarrow> (error + deleted) \<times> state" where
  "deleteImage itemId st =
     (if prefix ''group-'' itemId then
        (case deleteGroup itemId st of
           (deletedCount, st') \<Rightarrow> (Inr (GroupDeleted deletedCount), st'))
      else if prefix ''link-'' itemId then
        (case map_of (metadataMap st) itemId of
           Some r \<Rightarrow>
             (Inr LinkDeleted, st\<lparr>metadataMap := AList.delete itemId (metadataMap st)\<rparr>)
         | None \<Rightarrow> (Inl (NotFound ''Link not found''), st))
      else
        (if itemId \<in> set (readdirSync (uploadsDir st)) then
           (let st1 = st\<lparr>uploadsDir := AList.delete itemId (uploadsDir st)\<rparr>
            in (Inr FileDeleted,
                case map_of (metadataMap st1) itemId of
                  Some r \<Rightarrow> st1\<lparr>metadataMap := AList.delete itemId (metadataMap st1)\<rparr>
                | None \<Rightarrow> st1))
         else (Inl (NotFound ''File not found''), st)))"

section \<open>Reordering a group\<close>

text \<open>
  One turn of the loop over the files of the uploads directory, and one of the loop over
  the metadata keys for the links.
\<close>

definition orderFileStep :: "string \<Rightarrow> string list \<Rightarrow> string \<Rightarrow> metadata \<Rightarrow> metadata" where
  "orderFileStep gid fileOrder file md =
     (case map_of md file of
        None \<Rightarrow> md
      | Some fileMeta \<Rightarrow>
          if groupId fileMeta = Some gid then
            (let orderIndex = indexOf fileOrder file
             in if orderIndex \<noteq> - 1
                then AList.update file (fileMeta\<lparr>order := Some orderIndex\<rparr>) md
                else md)
          else md)"

definition orderLinkStep :: "string \<Rightarrow> string list \<Rightarrow> string \<Rightarrow> metadata \<Rightarrow> metadata" where
  "orderLinkStep gid fileOrder linkId md =
     (case map_of md linkId of
        None \<Rightarrow> md
      | Some fileMeta \<Rightarrow>
          if isExternal fileMeta \<and> groupId fileMeta = Some gid then
            (let orderIndex = indexOf fileOrder linkId
             in if orderIndex \<noteq> - 1
                then AList.update linkId (fileMeta\<lparr>order := Some orderIndex\<rparr>) md
                else md)
          else md)"

text \<open>
  \<^verbatim>\<open>PUT /api/groups/:groupId/order\<close>; a body whose \<^verbatim>\<open>fileOrder\<close> is not an array is
  \<open>None\<close>.
\<close>

definition putGroupOrder ::
  "string \<Rightarrow> string list option \<Rightarrow> state \<Rightarrow> (error + string) \<times> state"
where
  "putGroupOrder gid body st =
     (case body of
        None \<Rightarrow> (Inl (BadRequest ''File order must be an array''), st)
      | Some fileOrder \<Rightarrow>
          (let md1 = fold (orderFileStep gid fileOrder) (readdirSync (uploadsDir st))
                       (metadataMap st);
               md2 = fold (orderLinkStep gid fileOrder) (map fst md1) md1
           in (Inr ''Order updated successfully'', st\<lparr>metadataMap := md2\<rparr>)))"

section \<open>Notions used in the statements\<close>







chapter \<open>Properties\<close>

section \<open>Order extraction from a filename\<close>

lemma firstDigitRun_run:
  assumes "\<forall>c\<in>set pre. \<not> isDigit c" "ds \<noteq> []" "\<forall>c\<in>set ds. isDigit c"
    "rest = [] \<or> \<not> isDigit (hd rest)"
  shows "firstDigitRun (pre @ ds @ rest) = Some ds"
proof -
  obtain d ds' where ds: "ds = d # ds'" using assms(2) by (cases ds) auto
  have dr: "dropWhile (\<lambda>c. \<not> isDigit c) (pre @ ds @ rest) = ds @ rest"
    using assms(1,3) ds by (simp add: dropWhile_append)
  have tk: "takeWhile isDigit (ds @ rest) = ds"
  proof (cases rest)
    case Nil
    then show ?thesis using assms(3) by simp
  next
    case (Cons r rs)
    then have "\<not> isDigit r" using assms(4) by simp
    then show ?thesis using Cons assms(3) by (simp add: takeWhile_tail)
  qed
  show ?thesis
    unfolding firstDigitRun_def dr using tk ds by simp
qed

lemma firstDigitRun_none:
  assumes "\<forall>c\<in>set s. \<not> isDigit c"
  shows "firstDigitRun s = None"
proof -
  have dw: "dropWhile (\<lambda>c. \<not> isDigit c) s = []" using assms by simp
  show ?thesis unfolding firstDigitRun_def dw by simp
qed

lemma basename_plain:
  assumes "CHR ''/'' \<notin> set p"
  shows "basename p = p"
proof -
  have a: "dropWhile (\<lambda>c. c = CHR ''/'') (rev p) = rev p"
  proof (cases "rev p")
    case Nil
    then show ?thesis by simp
  next
    case (Cons c cs)
    then have "c \<in> set p" by (metis list.set_intros(1) set_rev)
    then have "c \<noteq> CHR ''/''" using assms by auto
    then show ?thesis using Cons by simp
  qed
  have b: "takeWhile (\<lambda>c. c \<noteq> CHR ''/'') (rev p) = rev p"
    using assms by auto
  show ?thesis by (simp add: basename_def a b)
qed

lemma path_name_stem_ext:
  assumes "CHR ''/'' \<notin> set stem" "CHR ''/'' \<notin> set ext" "CHR ''.'' \<notin> set ext"
    "stem \<noteq> []" "stem @ CHR ''.'' # ext \<noteq> ''..''"
  shows "path_name (stem @ CHR ''.'' # ext) = stem"
    and "path_extname (stem @ CHR ''.'' # ext) = CHR ''.'' # ext"
proof -
  let ?p = "stem @ CHR ''.'' # ext"
  have b: "basename ?p = ?p" using assms(1,2) by (intro basename_plain) auto
  have r: "takeWhile (\<lambda>c. c \<noteq> CHR ''.'') (rev ?p) = rev ext"
    using assms(3) by (auto simp add: takeWhile_tail)
  have len: "Suc (length (rev ext)) \<noteq> length ?p" using assms(4) by simp
  have dot: "CHR ''.'' \<in> set ?p" by simp
  have e: "extOfBase ?p = CHR ''.'' # ext"
    unfolding extOfBase_def Let_def r using len dot assms(5) by simp
  show "path_name ?p = stem" unfolding path_name_def Let_def b e by simp
  show "path_extname ?p = CHR ''.'' # ext" unfolding path_extname_def b e by simp
qed

text \<open>
  Claim C5. Whenever the name without its extension (\<^verbatim>\<open>path.parse(filename).name\<close>)
  splits into a digit-free part, a non-empty run of digits and a rest that does not go
  on with a digit, \<^verbatim>\<open>extractOrderFromFilename\<close> returns the run's number minus one if
  the number lies between 1 and 9999, and null otherwise; it returns null when the name
  has no digit; \<^verbatim>\<open>photo_2.jpg\<close> yields order 1, and that is the order the upload
  handler stores and returns for a file of that name.
\<close>

theorem extractOrder_first_digit_run:
  "(\<forall>pre ds rest.
      path_name f = pre @ ds @ rest \<and> (\<forall>c\<in>set pre. \<not> isDigit c) \<and> ds \<noteq> []
        \<and> (\<forall>c\<in>set ds. isDigit c) \<and> (rest = [] \<or> \<not> isDigit (hd rest)) \<longrightarrow>
      extractOrderFromFilename f =
        (if 1 \<le> parseInt ds \<and> parseInt ds \<le> 9999 then Some (parseInt ds - 1) else None))
   \<and> ((\<forall>c\<in>set (path_name f). \<not> isDigit c) \<longrightarrow> extractOrderFromFilename f = None)
   \<and> extractOrderFromFilename ''photo_2.jpg'' = Some 1
   \<and> (case fst (postUpload now
                   (Some \<lparr>originalname = ''photo_2.jpg'', filename = stored, mimetype = mt\<rparr>)
                   body st) of
          Inl e \<Rightarrow> None
        | Inr (i, r) \<Rightarrow> order r) = Some 1"
proof (intro conjI allI impI)
  fix pre ds rest
  assume h: "path_name f = pre @ ds @ rest \<and> (\<forall>c\<in>set pre. \<not> isDigit c) \<and> ds \<noteq> []
        \<and> (\<forall>c\<in>set ds. isDigit c) \<and> (rest = [] \<or> \<not> isDigit (hd rest))"
  then have "firstDigitRun (path_name f) = Some ds"
    using firstDigitRun_run[of pre ds rest] by simp
  then show "extractOrderFromFilename f =
        (if 1 \<le> parseInt ds \<and> parseInt ds \<le> 9999 then Some (parseInt ds - 1) else None)"
    by (simp add: extractOrderFromFilename_def Let_def)
next
  assume "\<forall>c\<in>set (path_name f). \<not> isDigit c"
  then show "extractOrderFromFilename f = None"
    by (simp add: extractOrderFromFilename_def firstDigitRun_none)
next
  show "extractOrderFromFilename ''photo_2.jpg'' = Some 1"
    by code_simp
next
  have e: "extractOrderFromFilename ''photo_2.jpg'' = Some 1" by code_simp
  show "(case fst (postUpload now
                   (Some \<lparr>originalname = ''photo_2.jpg'', filename = stored, mimetype = mt\<rparr>)
                   body st) of
          Inl e \<Rightarrow> None
        | Inr (i, r) \<Rightarrow> order r) = Some 1"
    by (simp add: postUpload_def initialOrder_def Let_def e)
qed

theorem extractOrder_first_digit_run_witness:
  "path_name ''photo_2.jpg'' = ''photo_'' @ ''2'' @ [] \<and> parseInt ''2'' = 2 \<and>
   extractOrderFromFilename ''photo_2.jpg'' = Some 1 \<and>
   extractOrderFromFilename ''holiday.png'' = None \<and>
   extractOrderFromFilename ''img_12345.jpg'' = None"
proof -
  have a: "path_name ''photo_2.jpg'' = ''photo_'' @ ''2'' @ []" by code_simp
  have b: "\<forall>c\<in>set ''photo_''. \<not> isDigit c" by code_simp
  have c: "\<forall>c\<in>set ''2''. isDigit c" by code_simp
  have p: "parseInt ''2'' = 2" by code_simp
  have 1: "extractOrderFromFilename ''photo_2.jpg'' = Some 1"
    using conjunct1[OF extractOrder_first_digit_run[of "''photo_2.jpg''"], rule_format,
        of "''photo_''" "''2''" "[]"] a b c p by simp
  have d: "\<forall>c\<in>set (path_name ''holiday.png''). \<not> isDigit c" by code_simp
  have 2: "extractOrderFromFilename ''holiday.png'' = None"
    using extractOrder_first_digit_run[of "''holiday.png''"] d by blast
  have a3: "path_name ''img_12345.jpg'' = ''img_'' @ ''12345'' @ []" by code_simp
  have b3: "\<forall>c\<in>set ''img_''. \<not> isDigit c" by code_simp
  have c3: "\<forall>c\<in>set ''12345''. isDigit c" by code_simp
  have p3: "parseInt ''12345'' = 12345" by code_simp
  have 3: "extractOrderFromFilename ''img_12345.jpg'' = None"
    using conjunct1[OF extractOrder_first_digit_run[of "''img_12345.jpg''"], rule_format,
        of "''img_''" "''12345''" "[]"] a3 b3 c3 p3 by simp
  show ?thesis using a p 1 2 3 by simp
qed

section \<open>Loading the metadata\<close>

text \<open>
  A readable primary file is returned as it is, and a metadata object saved to a
  writable primary file is the one the next load returns: this is the view of the store
  the handlers of the later sections work on.
\<close>

lemma load_readable:
  "metadataFile s = File (Json m) \<Longrightarrow> loadMetadata s = Inr (m, s)"
  by (simp add: loadMetadata_def loadMetadataWithFallback_def tryPrimary_def existsSync_def
      readFileSync_def JSON_parse_def)

lemma save_then_load:
  "metadataFileWritable s \<Longrightarrow> loadMetadata (saveMetadata m s) = Inr (m, saveMetadata m s)"
  by (rule load_readable)
     (simp add: saveMetadata_def writeMetadataFile_def writeBackupMetadataFile_def)

text \<open>
  Claim C2, as the code has it. \<^verbatim>\<open>load()\<close> always returns: the contents of the primary
  file when it exists and parses; otherwise the contents of the backup file when that
  parses, and then the primary file holds the backup's contents if the write to it
  succeeds and is left as it was if the write fails; otherwise the empty map, with both
  files untouched.
\<close>

theorem load_falls_back:
  "loadMetadata s =
     Inr (case metadataFile s of
            File (Json p) \<Rightarrow> (p, s)
          | _ \<Rightarrow>
             (case backupMetadataFile s of
                File (Json b) \<Rightarrow>
                  (b, if metadataFileWritable s then s\<lparr>metadataFile := File (Json b)\<rparr> else s)
              | _ \<Rightarrow> ([], s)))"
proof (cases "metadataFile s")
  case Missing
  then show ?thesis
    by (cases "backupMetadataFile s")
       (auto simp: loadMetadata_def loadMetadataWithFallback_def tryPrimary_def tryBackup_def
          existsSync_def readFileSync_def JSON_parse_def writeMetadataFile_def
          split: content.splits)
next
  case Unreadable
  then show ?thesis
    by (cases "backupMetadataFile s")
       (auto simp: loadMetadata_def loadMetadataWithFallback_def tryPrimary_def tryBackup_def
          existsSync_def readFileSync_def JSON_parse_def writeMetadataFile_def
          split: content.splits)
next
  case (File c)
  then show ?thesis
    by (cases c; cases "backupMetadataFile s")
       (auto simp: loadMetadata_def loadMetadataWithFallback_def tryPrimary_def tryBackup_def
          existsSync_def readFileSync_def JSON_parse_def writeMetadataFile_def
          split: content.splits)
qed

theorem load_falls_back_witness:
  "loadMetadata \<lparr>metadataFile = File Garbage, backupMetadataFile = File (Json []),
                 metadataFileWritable = True, backupMetadataFileWritable = True\<rparr>
   = Inr ([], \<lparr>metadataFile = File (Json []), backupMetadataFile = File (Json []),
                metadataFileWritable = True, backupMetadataFileWritable = True\<rparr>)
   \<and> loadMetadata \<lparr>metadataFile = Missing, backupMetadataFile = Unreadable,
                 metadataFileWritable = True, backupMetadataFileWritable = True\<rparr>
   = Inr ([], \<lparr>metadataFile = Missing, backupMetadataFile = Unreadable,
                metadataFileWritable = True, backupMetadataFileWritable = True\<rparr>)"
  using load_falls_back[of "\<lparr>metadataFile = File Garbage, backupMetadataFile = File (Json []),
                 metadataFileWritable = True, backupMetadataFileWritable = True\<rparr>"]
    load_falls_back[of "\<lparr>metadataFile = Missing, backupMetadataFile = Unreadable,
                 metadataFileWritable = True, backupMetadataFileWritable = True\<rparr>"]
  by simp

text \<open>
  Claim C2 as stated fails where the primary file cannot be written: with an unparseable
  primary and a valid backup, \<^verbatim>\<open>load()\<close> returns the backup's contents and the primary
  file still does not match them.
\<close>

theorem load_rewrite_counterexample:
  "(let m = [(''a.jpg'', defaultMeta ''a.jpg'' ''2024-01-01T00:00:00.000Z'')];
        s = \<lparr>metadataFile = File Garbage, backupMetadataFile = File (Json m),
             metadataFileWritable = False, backupMetadataFileWritable = True\<rparr>
    in case loadMetadata s of
         Inl e \<Rightarrow> False
       | Inr (loaded, s') \<Rightarrow> loaded = m \<and> metadataFile s' \<noteq> File (Json m))"
  by (simp add: loadMetadata_def loadMetadataWithFallback_def tryPrimary_def tryBackup_def
          existsSync_def readFileSync_def JSON_parse_def writeMetadataFile_def Let_def)

section \<open>Registering a link\<close>

lemma youtu_be_classified:
  "\<not> str_includes ''https://youtu.be/abc123'' ''youtube.com''"
  "str_includes ''https://youtu.be/abc123'' ''youtu.be''"
  "\<not> str_includes ''https://youtu.be/abc123'' ''youtube.com/watch?v=''"
  "str_includes ''https://youtu.be/abc123'' ''youtu.be/''"
  "map_option (\<lambda>p. firstPiece (split p ''?'')) (secondPiece (split ''https://youtu.be/abc123'' ''youtu.be/''))
     = Some ''abc123''"
  "extractOrderFromFilename ''https://youtu.be/abc123'' = Some 122"
  by code_simp+

text \<open>
  Claim C6, as the code has it. Registering \<^verbatim>\<open>https://youtu.be/abc123\<close> with no group
  id stores and returns a record with video type \<^verbatim>\<open>youtube\<close>, embed url
  \<^verbatim>\<open>https://www.youtube.com/embed/abc123\<close> and order 122: the order is derived from
  the url as from a filename, and the last segment \<^verbatim>\<open>abc123\<close> of the url holds the
  digits 123.
\<close>

theorem youtu_be_link_order_122:
  "postUploadLink now unique
     \<lparr>linkUrl = Some ''https://youtu.be/abc123'', linkCategory = c, linkDescription = d,
      linkGroupId = None\<rparr> st
   = (Inr (''link-'' @ unique,
           \<lparr>category = Some (orElse c ''fun''), description = Some (orElse d []),
            uploadDate = Some now, mediaType = Some ''video'', groupId = None,
            order = Some 122, isExternal = True,
            externalUrl = Some ''https://youtu.be/abc123'',
            embedUrl = Some ''https://www.youtube.com/embed/abc123'',
            videoType = Some ''youtube'', titleImageId = None\<rparr>),
      st\<lparr>metadataMap :=
           AList.update (''link-'' @ unique)
             \<lparr>category = Some (orElse c ''fun''), description = Some (orElse d []),
              uploadDate = Some now, mediaType = Some ''video'', groupId = None,
              order = Some 122, isExternal = True,
              externalUrl = Some ''https://youtu.be/abc123'',
              embedUrl = Some ''https://www.youtube.com/embed/abc123'',
              videoType = Some ''youtube'', titleImageId = None\<rparr>
             (metadataMap st)\<rparr>)"
proof -
  have t: "truthy (Some ''https://youtu.be/abc123'')" "truthy (Some ''abc123'')" "\<not> truthy None"
    by (simp_all add: truthy_def)
  have o: "orElse (Some ''https://youtu.be/abc123'') [] = ''https://youtu.be/abc123''"
    "orElse (Some ''abc123'') [] = ''abc123''"
    by (simp_all add: orElse_def)
  show ?thesis
    unfolding postUploadLink_def initialOrder_def Let_def
    by (simp add: t o youtu_be_classified)
qed

theorem youtu_be_link_order_122_witness:
  "fst (postUploadLink ''2024-01-01T00:00:00.000Z'' ''1704067200000-42''
        \<lparr>linkUrl = Some ''https://youtu.be/abc123'', linkCategory = None,
         linkDescription = None, linkGroupId = None\<rparr>
        \<lparr>metadataMap = [], uploadsDir = [], backupsDir = []\<rparr>)
   = Inr (''link-1704067200000-42'',
           \<lparr>category = Some ''fun'', description = Some [],
            uploadDate = Some ''2024-01-01T00:00:00.000Z'', mediaType = Some ''video'',
            groupId = None, order = Some 122, isExternal = True,
            externalUrl = Some ''https://youtu.be/abc123'',
            embedUrl = Some ''https://www.youtube.com/embed/abc123'',
            videoType = Some ''youtube'', titleImageId = None\<rparr>)"
  using youtu_be_link_order_122[of "''2024-01-01T00:00:00.000Z''" "''1704067200000-42''" None None
      "\<lparr>metadataMap = [], uploadsDir = [], backupsDir = []\<rparr>"]
  by (simp add: orElse_def)

text \<open>
  Claim C6 as stated gives the order 999; the order of the registered link is not 999.
\<close>

theorem youtu_be_link_order_counterexample:
  "(case fst (postUploadLink ''2024-01-01T00:00:00.000Z'' ''1704067200000-42''
        \<lparr>linkUrl = Some ''https://youtu.be/abc123'', linkCategory = None,
         linkDescription = None, linkGroupId = None\<rparr>
        \<lparr>metadataMap = [], uploadsDir = [], backupsDir = []\<rparr>) of
      Inl e \<Rightarrow> None
    | Inr (linkId, r) \<Rightarrow> order r) \<noteq> Some 999"
  by code_simp

section \<open>The title of a group whose title image is gone\<close>

text \<open>
  Claim C4. A group of three files has \<^verbatim>\<open>c.jpg\<close> as its title image on every member;
  \<^verbatim>\<open>c.jpg\<close> is then deleted. The group detail marks no member as the title (the two
  remaining members both have \<^verbatim>\<open>isTitle\<close> false), where the claim asks for the first
  member by sort; the listing of the same state does fall back to \<^verbatim>\<open>a.jpg\<close>. (The
  orders of the members differ, so the outcome is the same for every collation.)
\<close>

theorem dangling_title_no_fallback_in_detail:
  "(let r = \<lparr>category = Some ''fun'', description = Some [],
             uploadDate = Some ''2024-01-01T00:00:00.000Z'', mediaType = Some ''image'',
             groupId = Some ''group-1'', order = Some 0, isExternal = False,
             externalUrl = None, embedUrl = None, videoType = None,
             titleImageId = Some ''c.jpg''\<rparr>;
        st = \<lparr>metadataMap = [(''a.jpg'', r), (''b.jpg'', r\<lparr>order := Some 1\<rparr>),
                               (''c.jpg'', r\<lparr>order := Some 2\<rparr>)],
              uploadsDir = [(''a.jpg'', ''t''), (''b.jpg'', ''t''), (''c.jpg'', ''t'')],
              backupsDir = []\<rparr>;
        st' = snd (deleteImage ''c.jpg'' st)
    in (case getGroup lc ''now'' ''group-1'' st' of
          Inl e \<Rightarrow> []
        | Inr d \<Rightarrow> map (\<lambda>f. (fileId f, isTitle f)) (detailFiles d),
        case map_of (snd (assemble lc ''now'' st')) ''group-1'' of
          None \<Rightarrow> None
        | Some g \<Rightarrow> map_option memberId (titleImage g)))
   = ([(''a.jpg'', False), (''b.jpg'', False)], Some ''a.jpg'')"
  by code_simp

section \<open>The next order in a group with links\<close>

text \<open>
  Claim C7. Two links without digits are registered into the same group, then a file
  without digits is uploaded into it. The second link gets order 0 although the group
  already has a member with order 0, and so does the file: the maximum is taken over the
  files of the uploads directory only, never over the links of the group.
\<close>

theorem max_order_ignores_links:
  "(let body = \<lparr>linkUrl = Some ''https://example.org/clip'', linkCategory = None,
                linkDescription = None, linkGroupId = Some ''group-1''\<rparr>;
        st0 = \<lparr>metadataMap = [], uploadsDir = [], backupsDir = []\<rparr>;
        st1 = snd (postUploadLink ''t1'' ''1-1'' body st0);
        st2 = snd (postUploadLink ''t2'' ''2-2'' body st1)
    in (map (\<lambda>(k, r). (k, groupId r, order r)) (metadataMap st2),
        case fst (postUpload ''t3''
                   (Some \<lparr>originalname = ''holiday.jpg'', filename = ''3-3.jpg'',
                          mimetype = ''image/jpeg''\<rparr>)
                   \<lparr>bodyCategory = None, bodyDescription = None,
                    bodyGroupId = Some ''group-1''\<rparr> st2) of
          Inl e \<Rightarrow> None
        | Inr (i, r) \<Rightarrow> order r))
   = ([(''link-1-1'', Some ''group-1'', Some 0), (''link-2-2'', Some ''group-1'', Some 0)],
      Some 0)"
  by code_simp

section \<open>The order of the members of a group\<close>

subsection \<open>The sort\<close>



lemma length_insertBy: "length (insertBy cmp x xs) = Suc (length xs)"
  by (induction xs) auto

lemma length_arraySort: "length (arraySort cmp xs) = length xs"
  by (induction xs) (auto simp: arraySort_def length_insertBy)

lemma arraySort_Nil_iff: "arraySort cmp xs = [] \<longleftrightarrow> xs = []"
  using length_arraySort[of cmp xs] by (metis length_0_conv)





subsection \<open>The comparators\<close>














subsection \<open>The group detail\<close>

lemma fileId_extend [simp]: "fileId (groupFile.extend f e) = fileId f"
  by (simp add: groupFile.defs)








subsection \<open>The listing\<close>

















lemma resolveTitle_members [simp]:
  "groupMembers (resolveTitle lc md g) = arraySort (compareMember lc) (groupMembers g)"
  by (simp add: resolveTitle_def Let_def)




subsection \<open>The archive\<close>








section \<open>Startup reconciliation\<close>

text \<open>
  The first subsections are about the two loops of \<^verbatim>\<open>syncMetadataWithFiles\<close> on a given
  metadata object and directory listing, the last one about the function itself.
\<close>

subsection \<open>The pruning loop\<close>

lemma pruneStep_cases:
  "pruneStep fs key (md, u) =
     (if (\<exists>r. map_of md key = Some r \<and> isExternal r) \<or> key \<in> set fs then (md, u)
      else (AList.delete key md, True))"
  by (auto simp: pruneStep_def split: option.splits)

lemma prune_map_of:
  "map_of (fst (fold (pruneStep fs) ks (md, u))) k =
     (if k \<in> set ks \<and> \<not> ((\<exists>r. map_of md k = Some r \<and> isExternal r) \<or> k \<in> set fs)
      then None else map_of md k)"
proof (induction ks arbitrary: md u)
  case Nil
  then show ?case by simp
next
  case (Cons key ks)
  show ?case
  proof (cases "(\<exists>r. map_of md key = Some r \<and> isExternal r) \<or> key \<in> set fs")
    case True
    then have "pruneStep fs key (md, u) = (md, u)" by (simp add: pruneStep_cases)
    then show ?thesis using Cons.IH[of md u] True by auto
  next
    case False
    then have step: "pruneStep fs key (md, u) = (AList.delete key md, True)"
      by (auto simp: pruneStep_cases)
    show ?thesis
    proof (cases "k = key")
      case True
      then show ?thesis
        using step False Cons.IH[of "AList.delete key md" True]
        by (simp add: AList.delete_conv')
    next
      case neq: False
      then show ?thesis
        using step Cons.IH[of "AList.delete key md" True]
        by (auto simp: AList.delete_conv')
    qed
  qed
qed

lemma prune_unchanged:
  assumes "\<forall>k\<in>set ks. (\<exists>r. map_of md k = Some r \<and> isExternal r) \<or> k \<in> set fs"
  shows "fold (pruneStep fs) ks (md, u) = (md, u)"
  using assms by (induction ks) (simp_all add: pruneStep_cases)

lemma prune_flag_stays: "snd (fold (pruneStep fs) ks (md, True)) = True"
  by (induction ks arbitrary: md) (simp_all add: pruneStep_cases)

lemma prune_not_updated:
  assumes "snd (fold (pruneStep fs) ks (md, u)) = False"
  shows "fold (pruneStep fs) ks (md, u) = (md, False)"
  using assms
proof (induction ks arbitrary: md u)
  case Nil
  then show ?case by simp
next
  case (Cons key ks)
  show ?case
  proof (cases "(\<exists>r. map_of md key = Some r \<and> isExternal r) \<or> key \<in> set fs")
    case True
    then have "pruneStep fs key (md, u) = (md, u)" by (simp add: pruneStep_cases)
    then show ?thesis using Cons by simp
  next
    case False
    then have "pruneStep fs key (md, u) = (AList.delete key md, True)"
      by (auto simp: pruneStep_cases)
    then have "snd (fold (pruneStep fs) (key # ks) (md, u)) = True"
      by (simp add: prune_flag_stays)
    then show ?thesis using Cons.prems by simp
  qed
qed

subsection \<open>The loop that adds default records\<close>

lemma addStep_cases:
  "addStep (f, t) (md, u) =
     (if map_of md f = None then (AList.update f (defaultMeta f t) md, True) else (md, u))"
  by (auto simp: addStep_def split: option.splits)

lemma add_map_of:
  "map_of (fst (fold addStep ents (md, u))) k =
     (case map_of md k of
        Some r \<Rightarrow> Some r
      | None \<Rightarrow> (case map_of ents k of None \<Rightarrow> None | Some t \<Rightarrow> Some (defaultMeta k t)))"
proof (induction ents arbitrary: md u)
  case Nil
  then show ?case by (simp split: option.splits)
next
  case (Cons e ents)
  obtain f t where e: "e = (f, t)" by (cases e)
  show ?case
  proof (cases "map_of md f = None")
    case True
    then have step: "addStep e (md, u) = (AList.update f (defaultMeta f t) md, True)"
      by (simp add: e addStep_cases)
    show ?thesis
      using step True e Cons.IH[of "AList.update f (defaultMeta f t) md" True]
      by (auto simp: AList.update_conv' split: option.splits)
  next
    case False
    then have step: "addStep e (md, u) = (md, u)" by (auto simp: e addStep_cases)
    show ?thesis
      using step False e Cons.IH[of md u] by (auto split: option.splits)
  qed
qed

lemma add_unchanged:
  assumes "\<forall>e\<in>set ents. map_of md (fst e) \<noteq> None"
  shows "fold addStep ents (md, u) = (md, u)"
  using assms by (induction ents) (auto simp: addStep_cases)

lemma add_flag_stays: "snd (fold addStep ents (md, True)) = True"
  by (induction ents arbitrary: md) (auto simp: addStep_cases)

lemma add_not_updated:
  assumes "snd (fold addStep ents (md, u)) = False"
  shows "fold addStep ents (md, u) = (md, False)"
  using assms
proof (induction ents arbitrary: md u)
  case Nil
  then show ?case by simp
next
  case (Cons e ents)
  obtain f t where e: "e = (f, t)" by (cases e)
  show ?case
  proof (cases "map_of md f = None")
    case True
    then have "addStep e (md, u) = (AList.update f (defaultMeta f t) md, True)"
      by (simp add: e addStep_cases)
    then have "snd (fold addStep (e # ents) (md, u)) = True"
      by (simp add: add_flag_stays)
    then show ?thesis using Cons.prems by simp
  next
    case False
    then have "addStep e (md, u) = (md, u)" by (auto simp: e addStep_cases)
    then show ?thesis using Cons by simp
  qed
qed

subsection \<open>Both loops\<close>

lemma map_of_media_entries:
  "map_of (filter (\<lambda>e. isMediaFile (fst e)) dir) k =
     (if isMediaFile k then map_of dir k else None)"
  by (induction dir) auto

lemma map_of_keys: "k \<in> fst ` set al \<longleftrightarrow> map_of al k \<noteq> None"
  by (induction al) auto

lemma reconcile_map_of:
  "map_of (fst (reconcile md dir)) k =
     (case map_of md k of
        Some r \<Rightarrow>
          if isExternal r \<or> (k \<in> set (readdirSync dir) \<and> isMediaFile k) then Some r else None
      | None \<Rightarrow>
          (case map_of dir k of
             Some t \<Rightarrow> if isMediaFile k then Some (defaultMeta k t) else None
           | None \<Rightarrow> None))"
proof -
  let ?ents = "filter (\<lambda>e. isMediaFile (fst e)) dir"
  let ?p = "fold (pruneStep (map fst ?ents)) (map fst md) (md, False)"
  have fs: "k \<in> set (map fst ?ents) \<longleftrightarrow> k \<in> set (readdirSync dir) \<and> isMediaFile k"
    by (auto simp: readdirSync_def)
  have p: "map_of (fst ?p) k =
      (if k \<in> set (map fst md) \<and>
          \<not> ((\<exists>r. map_of md k = Some r \<and> isExternal r) \<or> k \<in> set (map fst ?ents))
       then None else map_of md k)"
    by (rule prune_map_of)
  have r: "map_of (fst (reconcile md dir)) k =
     (case map_of (fst ?p) k of
        Some r \<Rightarrow> Some r
      | None \<Rightarrow> (case map_of ?ents k of None \<Rightarrow> None | Some t \<Rightarrow> Some (defaultMeta k t)))"
    unfolding reconcile_def Let_def using add_map_of[of ?ents "fst ?p" "snd ?p" k] by simp
  have in_dir: "k \<in> set (readdirSync dir) \<longleftrightarrow> map_of dir k \<noteq> None"
    unfolding readdirSync_def by (simp add: map_of_keys)
  show ?thesis
  proof (cases "map_of md k")
    case None
    then have "map_of (fst ?p) k = None" using p by simp
    then show ?thesis using r None by (simp add: map_of_media_entries split: option.splits)
  next
    case (Some r0)
    then have km: "k \<in> set (map fst md)" by (simp add: map_of_keys)
    show ?thesis
    proof (cases "isExternal r0 \<or> (k \<in> set (readdirSync dir) \<and> isMediaFile k)")
      case True
      then have "map_of (fst ?p) k = Some r0" using p Some fs by auto
      then show ?thesis using r Some True by simp
    next
      case False
      then have "map_of (fst ?p) k = None" using p Some fs km by auto
      moreover have "map_of ?ents k = None"
        using False in_dir by (auto simp: map_of_media_entries)
      ultimately show ?thesis using r Some False by simp
    qed
  qed
qed

lemma reconcile_not_updated:
  assumes "snd (reconcile md dir) = False"
  shows "fst (reconcile md dir) = md"
proof -
  let ?ents = "filter (\<lambda>e. isMediaFile (fst e)) dir"
  let ?p = "fold (pruneStep (map fst ?ents)) (map fst md) (md, False)"
  have r: "reconcile md dir = fold addStep ?ents (fst ?p, snd ?p)"
    by (simp add: reconcile_def Let_def)
  then have a: "fold addStep ?ents (fst ?p, snd ?p) = (fst ?p, False)"
    using assms add_not_updated[of ?ents "fst ?p" "snd ?p"] by simp
  then have "snd ?p = False"
    using add_flag_stays[of ?ents "fst ?p"] by (cases "snd ?p") auto
  then have "?p = (md, False)" by (rule prune_not_updated)
  then show ?thesis using r a by simp
qed

lemma reconcile_idempotent:
  assumes same: "filter isMediaFile (readdirSync dir') = filter isMediaFile (readdirSync dir)"
  shows "reconcile (fst (reconcile md dir)) dir' = (fst (reconcile md dir), False)"
proof -
  define m1 where "m1 = fst (reconcile md dir)"
  define ents where "ents = filter (\<lambda>e. isMediaFile (fst e)) dir'"
  have m1: "\<And>k. map_of m1 k =
     (case map_of md k of
        Some r \<Rightarrow>
          if isExternal r \<or> (k \<in> set (readdirSync dir) \<and> isMediaFile k) then Some r else None
      | None \<Rightarrow>
          (case map_of dir k of
             Some t \<Rightarrow> if isMediaFile k then Some (defaultMeta k t) else None
           | None \<Rightarrow> None))"
    unfolding m1_def by (rule reconcile_map_of)
  have names: "map fst ents = filter isMediaFile (readdirSync dir')"
    by (simp add: ents_def readdirSync_def filter_map o_def)
  have media: "\<And>k. k \<in> set (map fst ents) \<longleftrightarrow> k \<in> set (readdirSync dir) \<and> isMediaFile k"
    unfolding names same by auto
  have kept: "\<forall>k\<in>set (map fst m1).
      (\<exists>r. map_of m1 k = Some r \<and> isExternal r) \<or> k \<in> set (map fst ents)"
  proof
    fix k assume "k \<in> set (map fst m1)"
    then have "map_of m1 k \<noteq> None" by (simp add: map_of_keys)
    then obtain r where r: "map_of m1 k = Some r" by auto
    show "(\<exists>r. map_of m1 k = Some r \<and> isExternal r) \<or> k \<in> set (map fst ents)"
    proof (cases "k \<in> set (readdirSync dir) \<and> isMediaFile k")
      case True
      then show ?thesis using media by simp
    next
      case False
      then have "isExternal r"
        using r m1[of k]
        by (auto simp: readdirSync_def map_of_keys split: option.splits if_splits)
      then show ?thesis using r by simp
    qed
  qed
  have p: "fold (pruneStep (map fst ents)) (map fst m1) (m1, False) = (m1, False)"
    using kept by (rule prune_unchanged)
  have present: "\<forall>e\<in>set ents. map_of m1 (fst e) \<noteq> None"
  proof
    fix e assume "e \<in> set ents"
    then have "fst e \<in> set (map fst ents)" by simp
    then have k: "fst e \<in> set (readdirSync dir) \<and> isMediaFile (fst e)" using media by simp
    then have "map_of dir (fst e) \<noteq> None" by (simp add: readdirSync_def map_of_keys)
    then show "map_of m1 (fst e) \<noteq> None"
      using k m1[of "fst e"] by (auto split: option.splits)
  qed
  have a: "fold addStep ents (m1, False) = (m1, False)"
    using present by (rule add_unchanged)
  have "reconcile m1 dir' = (m1, False)"
    unfolding reconcile_def Let_def ents_def[symmetric] p a ..
  then show ?thesis by (simp only: m1_def)
qed

subsection \<open>The type of a file by its extension\<close>

lemma toLowerChar_dot: "toLowerChar c = CHR ''.'' \<longleftrightarrow> c = CHR ''.''"
proof (cases "CHR ''A'' \<le> c \<and> c \<le> CHR ''Z''")
  case True
  then have r: "65 \<le> (of_char c :: nat)" "(of_char c :: nat) \<le> 90"
    by (simp_all add: less_eq_char_def)
  have low: "(of_char (char_of (of_char c + (32::nat))) :: nat) = of_char c + 32"
    using r by simp
  have "char_of (of_char c + (32::nat)) \<noteq> CHR ''.''"
  proof
    assume "char_of (of_char c + (32::nat)) = CHR ''.''"
    then have "(of_char (char_of (of_char c + (32::nat))) :: nat) = of_char CHR ''.''"
      by simp
    then have "(of_char c :: nat) + 32 = 46" using low by simp
    then show False using r by simp
  qed
  moreover have "c \<noteq> CHR ''.''" using r by auto
  ultimately show ?thesis using True by (simp add: toLowerChar_def)
next
  case False
  then show ?thesis by (auto simp add: toLowerChar_def)
qed


lemma toLowerCase_dot: "CHR ''.'' \<in> set (toLowerCase s) \<longleftrightarrow> CHR ''.'' \<in> set s"
proof -
  have "CHR ''.'' \<in> toLowerChar ` set s \<longleftrightarrow> (\<exists>c\<in>set s. toLowerChar c = CHR ''.'')"
    by (metis (no_types) imageE image_eqI)
  also have "\<dots> \<longleftrightarrow> (\<exists>c\<in>set s. c = CHR ''.'')"
    by (simp only: toLowerChar_dot)
  finally show ?thesis by (simp add: toLowerCase_def)
qed

lemma toLowerCase_append: "toLowerCase (a @ b) = toLowerCase a @ toLowerCase b"
  by (simp add: toLowerCase_def)

lemma toLowerCase_dot_Cons: "toLowerCase (CHR ''.'' # s) = CHR ''.'' # toLowerCase s"
  using toLowerChar_dot[of "CHR ''.''"] by (simp add: toLowerCase_def)

lemma last_dot_unique:
  assumes "a @ CHR ''.'' # b = c @ CHR ''.'' # d" "CHR ''.'' \<notin> set b" "CHR ''.'' \<notin> set d"
  shows "b = d"
proof -
  have "takeWhile (\<lambda>x. x \<noteq> CHR ''.'') (rev (a @ CHR ''.'' # b)) = rev b"
    using assms(2) by (auto simp: takeWhile_tail)
  moreover have "takeWhile (\<lambda>x. x \<noteq> CHR ''.'') (rev (c @ CHR ''.'' # d)) = rev d"
    using assms(3) by (auto simp: takeWhile_tail)
  ultimately have "rev b = rev d" using assms(1) by simp
  then show ?thesis by simp
qed

lemma extOfBase_split:
  assumes "extOfBase b \<noteq> []"
  shows "\<exists>pre t. b = pre @ CHR ''.'' # t \<and> CHR ''.'' \<notin> set t \<and> extOfBase b = CHR ''.'' # t"
proof -
  let ?r = "takeWhile (\<lambda>c. c \<noteq> CHR ''.'') (rev b)"
  have dot: "CHR ''.'' \<in> set b" and e: "extOfBase b = CHR ''.'' # rev ?r"
    using assms by (auto simp: extOfBase_def Let_def split: if_splits)
  have "dropWhile (\<lambda>c. c \<noteq> CHR ''.'') (rev b) \<noteq> []"
    using dot by (simp add: dropWhile_eq_Nil_conv)
  then obtain x rest where d: "dropWhile (\<lambda>c. c \<noteq> CHR ''.'') (rev b) = x # rest"
    by (cases "dropWhile (\<lambda>c. c \<noteq> CHR ''.'') (rev b)") auto
  then have "x = CHR ''.''" using hd_dropWhile[of "\<lambda>c. c \<noteq> CHR ''.''" "rev b"] by auto
  then have "rev b = ?r @ CHR ''.'' # rest"
    using d takeWhile_dropWhile_id[of "\<lambda>c. c \<noteq> CHR ''.''" "rev b"] by simp
  then have "b = rev rest @ CHR ''.'' # rev ?r"
    by (metis rev_append rev.simps(2) rev_rev_ident append.assoc append_Cons append_Nil)
  moreover have "CHR ''.'' \<notin> set (rev ?r)"
    using set_takeWhileD[of "CHR ''.''" "\<lambda>c. c \<noteq> CHR ''.''" "rev b"] by auto
  ultimately show ?thesis using e by blast
qed

lemma video_type_by_extension:
  assumes noslash: "CHR ''/'' \<notin> set f" and media: "isMediaFile f"
  shows "isVideoName f \<longleftrightarrow>
         toLowerCase (path_extname f) \<in> set [''.mp4'', ''.webm'', ''.ogg'', ''.mov'', ''.avi'']"
proof -
  have b: "basename f = f" using noslash by (rule basename_plain)
  have ext: "path_extname f = extOfBase f" by (simp add: path_extname_def b)
  have "toLowerCase (extOfBase f) \<noteq> []"
    using media by (auto simp: isMediaFile_def ext mediaExtensions_def)
  then have "extOfBase f \<noteq> []" by (auto simp: toLowerCase_def)
  then obtain pre t where f: "f = pre @ CHR ''.'' # t" and t: "CHR ''.'' \<notin> set t"
    and e: "extOfBase f = CHR ''.'' # t"
    using extOfBase_split by blast
  have lf: "toLowerCase f = toLowerCase pre @ CHR ''.'' # toLowerCase t"
    by (subst f) (simp add: toLowerCase_append toLowerCase_dot_Cons)
  have lt: "CHR ''.'' \<notin> set (toLowerCase t)" using t by (simp add: toLowerCase_dot)
  have le: "toLowerCase (path_extname f) = CHR ''.'' # toLowerCase t"
    by (simp add: ext e toLowerCase_dot_Cons)
  have key: "suffix (CHR ''.'' # v) (toLowerCase f) \<longleftrightarrow> toLowerCase t = v"
    if v: "CHR ''.'' \<notin> set v" for v
  proof
    assume "suffix (CHR ''.'' # v) (toLowerCase f)"
    then obtain z where "toLowerCase f = z @ CHR ''.'' # v" by (auto simp: suffix_def)
    then have "toLowerCase pre @ CHR ''.'' # toLowerCase t = z @ CHR ''.'' # v"
      using lf by simp
    then show "toLowerCase t = v" using lt v by (rule last_dot_unique)
  next
    assume "toLowerCase t = v"
    then show "suffix (CHR ''.'' # v) (toLowerCase f)"
      using lf by (auto simp: suffix_def)
  qed
  have "isVideoName f \<longleftrightarrow> toLowerCase t \<in> set [''mp4'', ''webm'', ''ogg'', ''mov'', ''avi'']"
    unfolding isVideoName_def list_ex_iff
    using key[of "''mp4''"] key[of "''webm''"] key[of "''ogg''"] key[of "''mov''"] key[of "''avi''"]
    by auto
  then show ?thesis unfolding le by simp
qed

subsection \<open>The synchronisation as a whole\<close>

lemma sync_block_rejected: "redeclared [] tryBlockDeclarations = Some ''files''"
  by (simp add: tryBlockDeclarations_def)

lemma sync_never_runs: "syncMetadataWithFiles now st = (AlreadyDeclared ''files'', st)"
  by (simp add: syncMetadataWithFiles_def sync_block_rejected)

text \<open>
  Claim C1. The metadata holds a record for \<^verbatim>\<open>gone.jpg\<close>, which is neither external nor
  on disk, and the uploads directory holds \<^verbatim>\<open>new.png\<close>, which has no record. The claim
  asks the synchronisation to remove the first and to give the second the default
  record, and the two loops of the function would do so. The call does neither: the
  block of the function declares \<^verbatim>\<open>files\<close> twice, is rejected for it, and leaves the
  metadata as it was.
\<close>

theorem sync_rejected_before_reconciling:
  "(let r = \<lparr>category = Some ''fun'', description = Some [],
             uploadDate = Some ''2024-01-01T00:00:00.000Z'', mediaType = Some ''image'',
             groupId = None, order = Some 3, isExternal = False,
             externalUrl = None, embedUrl = None, videoType = None, titleImageId = None\<rparr>;
        st = \<lparr>metadataMap = [(''gone.jpg'', r)],
              uploadsDir = [(''new.png'', ''2024-02-02T00:00:00.000Z'')],
              backupsDir = []\<rparr>;
        res = syncMetadataWithFiles ''now'' st
    in (fst res,
        map fst (metadataMap (snd res)),
        readdirSync (uploadsDir (snd res)),
        map (\<lambda>(k, m). (k, category m, description m, uploadDate m, mediaType m, groupId m, order m))
          (fst (reconcile (metadataMap st) (uploadsDir st)))))
   = (AlreadyDeclared ''files'',
      [''gone.jpg''],
      [''new.png''],
      [(''new.png'', Some ''fun'', Some [], Some ''2024-02-02T00:00:00.000Z'', Some ''image'',
        None, Some 999)])"
  by code_simp

section \<open>Running the synchronisation twice\<close>

text \<open>
  Claim C9. The metadata and the uploads directory agree: \<^verbatim>\<open>a.jpg\<close> is on disk and has
  its record. The claim asks a second run of the synchronisation, right after a first,
  to report that no update is needed, and the two loops run a second time would leave
  the flag \<^verbatim>\<open>updated\<close> unset. Neither call runs: both are rejected for the second
  declaration of \<^verbatim>\<open>files\<close>, so the second reports nothing, whether the metadata is in
  sync or not.
\<close>

theorem second_sync_reports_nothing:
  "(let r = \<lparr>category = Some ''fun'', description = Some [],
             uploadDate = Some ''2024-01-01T00:00:00.000Z'', mediaType = Some ''image'',
             groupId = None, order = Some 3, isExternal = False,
             externalUrl = None, embedUrl = None, videoType = None, titleImageId = None\<rparr>;
        st = \<lparr>metadataMap = [(''a.jpg'', r)],
              uploadsDir = [(''a.jpg'', ''2024-01-01T00:00:00.000Z'')],
              backupsDir = []\<rparr>;
        first = syncMetadataWithFiles ''t1'' st;
        second = syncMetadataWithFiles ''t2'' (snd first);
        loops = reconcile (metadataMap st) (uploadsDir st)
    in (fst first, fst second, fst second = InSync, snd second = st,
        snd (reconcile (fst loops) (uploadsDir st))))
   = (AlreadyDeclared ''files'', AlreadyDeclared ''files'', False, True, False)"
  by code_simp

section \<open>Deleting a group\<close>

lemma in_listing: "k \<in> set (readdirSync dir) \<longleftrightarrow> map_of dir k \<noteq> None"
  by (simp add: readdirSync_def map_of_keys)

lemma deleteFileStep_cases:
  "deleteFileStep gid f (md, dir, n) =
     (if (\<exists>r. map_of md f = Some r \<and> groupId r = Some gid) \<and> map_of dir f \<noteq> None
      then (AList.delete f md, AList.delete f dir, n + 1)
      else (md, dir, n))"
  by (auto simp: deleteFileStep_def in_listing split: option.splits)

lemma delete_files_fold:
  "map_of (fst (fold (deleteFileStep gid) fs (md, dir, n))) k =
     (if k \<in> set fs \<and> (\<exists>r. map_of md k = Some r \<and> groupId r = Some gid) \<and> map_of dir k \<noteq> None
      then None else map_of md k)
   \<and> map_of (fst (snd (fold (deleteFileStep gid) fs (md, dir, n)))) k =
     (if k \<in> set fs \<and> (\<exists>r. map_of md k = Some r \<and> groupId r = Some gid) \<and> map_of dir k \<noteq> None
      then None else map_of dir k)"
proof (induction fs arbitrary: md dir n)
  case Nil
  then show ?case by simp
next
  case (Cons f fs)
  show ?case
  proof (cases "(\<exists>r. map_of md f = Some r \<and> groupId r = Some gid) \<and> map_of dir f \<noteq> None")
    case True
    then have step: "deleteFileStep gid f (md, dir, n)
                       = (AList.delete f md, AList.delete f dir, n + 1)"
      by (simp add: deleteFileStep_cases)
    show ?thesis
    proof (cases "k = f")
      case keq: True
      then show ?thesis
        using True step Cons.IH[of "AList.delete f md" "AList.delete f dir" "n + 1"]
        by (simp add: AList.delete_conv')
    next
      case kne: False
      then show ?thesis
        using step Cons.IH[of "AList.delete f md" "AList.delete f dir" "n + 1"]
        by (auto simp: AList.delete_conv')
    qed
  next
    case False
    then have step: "deleteFileStep gid f (md, dir, n) = (md, dir, n)"
      by (auto simp: deleteFileStep_cases)
    show ?thesis
      using False step Cons.IH[of md dir n] by auto
  qed
qed

lemma delete_files_unchanged:
  assumes "\<forall>f\<in>set fs. \<not> ((\<exists>r. map_of md f = Some r \<and> groupId r = Some gid) \<and> map_of dir f \<noteq> None)"
  shows "fold (deleteFileStep gid) fs (md, dir, n) = (md, dir, n)"
  using assms by (induction fs) (auto simp: deleteFileStep_cases)

lemma deleteLinkStep_cases:
  "deleteLinkStep gid k (md, dir, n) =
     (if (\<exists>r. map_of md k = Some r \<and> isExternal r \<and> groupId r = Some gid)
      then (AList.delete k md, dir, n + 1)
      else (md, dir, n))"
  by (auto simp: deleteLinkStep_def split: option.splits)

lemma delete_links_fold:
  "map_of (fst (fold (deleteLinkStep gid) ks (md, dir, n))) k =
     (if k \<in> set ks \<and> (\<exists>r. map_of md k = Some r \<and> isExternal r \<and> groupId r = Some gid)
      then None else map_of md k)
   \<and> fst (snd (fold (deleteLinkStep gid) ks (md, dir, n))) = dir"
proof (induction ks arbitrary: md n)
  case Nil
  then show ?case by simp
next
  case (Cons key ks)
  show ?case
  proof (cases "\<exists>r. map_of md key = Some r \<and> isExternal r \<and> groupId r = Some gid")
    case True
    then have step: "deleteLinkStep gid key (md, dir, n) = (AList.delete key md, dir, n + 1)"
      by (simp add: deleteLinkStep_cases)
    show ?thesis
    proof (cases "k = key")
      case keq: True
      then show ?thesis
        using True step Cons.IH[of "AList.delete key md" "n + 1"]
        by (simp add: AList.delete_conv')
    next
      case kne: False
      then show ?thesis
        using step Cons.IH[of "AList.delete key md" "n + 1"]
        by (auto simp: AList.delete_conv')
    qed
  next
    case False
    then have step: "deleteLinkStep gid key (md, dir, n) = (md, dir, n)"
      by (auto simp: deleteLinkStep_cases)
    show ?thesis
      using False step Cons.IH[of md n] by auto
  qed
qed

lemma delete_links_unchanged:
  assumes "\<forall>k\<in>set ks. \<not> (\<exists>r. map_of md k = Some r \<and> isExternal r \<and> groupId r = Some gid)"
  shows "fold (deleteLinkStep gid) ks (md, dir, n) = (md, dir, n)"
  using assms by (induction ks) (auto simp: deleteLinkStep_cases)


lemma deleteGroup_lookup:
  "map_of (metadataMap (snd (deleteGroup gid st))) k =
     (if (\<exists>r. map_of (metadataMap st) k = Some r \<and> groupId r = Some gid
              \<and> (k \<in> set (readdirSync (uploadsDir st)) \<or> isExternal r))
      then None else map_of (metadataMap st) k)"
  "map_of (uploadsDir (snd (deleteGroup gid st))) k =
     (if (\<exists>r. map_of (metadataMap st) k = Some r \<and> groupId r = Some gid)
      then None else map_of (uploadsDir st) k)"
  "backupsDir (snd (deleteGroup gid st)) = backupsDir st"
proof -
  define af where "af = fold (deleteFileStep gid) (readdirSync (uploadsDir st))
                         (metadataMap st, uploadsDir st, 0)"
  obtain md1 dir1 n1 where af: "af = (md1, dir1, n1)" by (cases af)
  define al where "al = fold (deleteLinkStep gid) (map fst md1) (md1, dir1, n1)"
  obtain md2 dir2 n2 where al: "al = (md2, dir2, n2)" by (cases al)
  have dg: "deleteGroup gid st = (n2, st\<lparr>metadataMap := md2, uploadsDir := dir2\<rparr>)"
    by (simp add: deleteGroup_def Let_def af al flip: af_def al_def)
  have f: "map_of md1 k =
     (if k \<in> set (readdirSync (uploadsDir st))
          \<and> (\<exists>r. map_of (metadataMap st) k = Some r \<and> groupId r = Some gid)
      then None else map_of (metadataMap st) k)"
    "map_of dir1 k =
     (if (\<exists>r. map_of (metadataMap st) k = Some r \<and> groupId r = Some gid)
      then None else map_of (uploadsDir st) k)"
    using delete_files_fold[of gid "readdirSync (uploadsDir st)" "metadataMap st" "uploadsDir st" 0 k]
    by (auto simp: af in_listing simp flip: af_def)
  have l: "map_of md2 k =
     (if (\<exists>r. map_of md1 k = Some r \<and> isExternal r \<and> groupId r = Some gid)
      then None else map_of md1 k)" "dir2 = dir1"
    using delete_links_fold[of gid "map fst md1" md1 dir1 n1 k]
    by (auto simp: al map_of_keys simp flip: al_def)
  show "map_of (metadataMap (snd (deleteGroup gid st))) k =
     (if (\<exists>r. map_of (metadataMap st) k = Some r \<and> groupId r = Some gid
              \<and> (k \<in> set (readdirSync (uploadsDir st)) \<or> isExternal r))
      then None else map_of (metadataMap st) k)"
    using f(1) l(1) by (auto simp: dg)
  show "map_of (uploadsDir (snd (deleteGroup gid st))) k =
     (if (\<exists>r. map_of (metadataMap st) k = Some r \<and> groupId r = Some gid)
      then None else map_of (uploadsDir st) k)"
    using f(2) l(2) by (simp add: dg)
  show "backupsDir (snd (deleteGroup gid st)) = backupsDir st"
    by (simp add: dg)
qed

lemma deleteGroup_no_members:
  assumes "\<forall>k r. map_of (metadataMap st) k = Some r \<and> groupId r = Some gid \<longrightarrow>
              k \<notin> set (readdirSync (uploadsDir st)) \<and> \<not> isExternal r"
  shows "deleteGroup gid st = (0, st)"
proof -
  have "fold (deleteFileStep gid) (readdirSync (uploadsDir st)) (metadataMap st, uploadsDir st, 0)
          = (metadataMap st, uploadsDir st, 0)"
    using assms by (intro delete_files_unchanged) (auto simp: in_listing)
  moreover have "fold (deleteLinkStep gid) (map fst (metadataMap st)) (metadataMap st, uploadsDir st, 0)
          = (metadataMap st, uploadsDir st, 0)"
    using assms by (intro delete_links_unchanged) auto
  ultimately show ?thesis by (simp add: deleteGroup_def Let_def)
qed

lemma concat_map_Nil: "concat (map f xs) = [] \<longleftrightarrow> (\<forall>x\<in>set xs. f x = [])"
  by (induction xs) auto

lemma getGroup_not_found:
  assumes files: "\<forall>f\<in>set (readdirSync (uploadsDir st)). \<forall>r.
              map_of (metadataMap st) f = Some r \<longrightarrow> groupId r \<noteq> Some gid"
    and links: "\<forall>k r. map_of (metadataMap st) k = Some r \<and> isExternal r \<longrightarrow> groupId r \<noteq> Some gid"
  shows "getGroup lc now gid st = Inl (NotFound ''Group not found'')"
proof -
  have "groupFilesOnDisk (metadataMap st) (readdirSync (uploadsDir st)) gid = []"
    unfolding groupFilesOnDisk_def concat_map_Nil
    using files by (auto split: option.splits)
  moreover have "groupLinks (metadataMap st) gid = []"
    unfolding groupLinks_def concat_map_Nil
    using links by (auto split: option.splits)
  ultimately show ?thesis by (simp add: getGroup_def Let_def)
qed


text \<open>
  Claim C8. Deleting an id that starts with \<^verbatim>\<open>group-\<close> succeeds with a count. Every
  file of the uploads directory whose metadata record is in the group is gone from the
  directory and from the metadata afterwards, and so is every external link of the
  group; what is not in the group keeps its record and its file. A following
  \<^verbatim>\<open>GET /api/groups/:groupId\<close> answers not found. When the group has no member the
  deletion succeeds with count zero and changes nothing.
\<close>

theorem delete_group_removes_members:
  assumes "prefix ''group-'' gid"
  shows
   "(\<exists>n. fst (deleteImage gid st) = Inr (GroupDeleted n))
    \<and> (\<forall>f r. f \<in> set (readdirSync (uploadsDir st)) \<and> map_of (metadataMap st) f = Some r
              \<and> groupId r = Some gid \<longrightarrow>
          f \<notin> set (readdirSync (uploadsDir (snd (deleteImage gid st))))
          \<and> map_of (metadataMap (snd (deleteImage gid st))) f = None)
    \<and> (\<forall>k r. map_of (metadataMap st) k = Some r \<and> isExternal r \<and> groupId r = Some gid \<longrightarrow>
          map_of (metadataMap (snd (deleteImage gid st))) k = None)
    \<and> (\<forall>k. \<not> (\<exists>r. map_of (metadataMap st) k = Some r \<and> groupId r = Some gid) \<longrightarrow>
          map_of (metadataMap (snd (deleteImage gid st))) k = map_of (metadataMap st) k
          \<and> map_of (uploadsDir (snd (deleteImage gid st))) k = map_of (uploadsDir st) k)
    \<and> getGroup lc now gid (snd (deleteImage gid st)) = Inl (NotFound ''Group not found'')
    \<and> ((\<forall>k r. map_of (metadataMap st) k = Some r \<and> groupId r = Some gid \<longrightarrow>
            k \<notin> set (readdirSync (uploadsDir st)) \<and> \<not> isExternal r) \<longrightarrow>
        deleteImage gid st = (Inr (GroupDeleted 0), st))"
proof -
  define st' where "st' = snd (deleteGroup gid st)"
  have di: "deleteImage gid st = (Inr (GroupDeleted (fst (deleteGroup gid st))), st')"
    using assms by (simp add: deleteImage_def st'_def split: prod.splits)
  have md: "\<And>k. map_of (metadataMap st') k =
     (if (\<exists>r. map_of (metadataMap st) k = Some r \<and> groupId r = Some gid
              \<and> (k \<in> set (readdirSync (uploadsDir st)) \<or> isExternal r))
      then None else map_of (metadataMap st) k)"
    unfolding st'_def by (rule deleteGroup_lookup(1))
  have dir: "\<And>k. map_of (uploadsDir st') k =
     (if (\<exists>r. map_of (metadataMap st) k = Some r \<and> groupId r = Some gid)
      then None else map_of (uploadsDir st) k)"
    unfolding st'_def by (rule deleteGroup_lookup(2))
  have 1: "\<exists>n. fst (deleteImage gid st) = Inr (GroupDeleted n)" by (simp add: di)
  have 2: "\<forall>f r. f \<in> set (readdirSync (uploadsDir st)) \<and> map_of (metadataMap st) f = Some r
              \<and> groupId r = Some gid \<longrightarrow>
          f \<notin> set (readdirSync (uploadsDir st')) \<and> map_of (metadataMap st') f = None"
    by (auto simp: in_listing md dir)
  have 3: "\<forall>k r. map_of (metadataMap st) k = Some r \<and> isExternal r \<and> groupId r = Some gid \<longrightarrow>
          map_of (metadataMap st') k = None"
    by (auto simp: md)
  have 4: "\<forall>k. \<not> (\<exists>r. map_of (metadataMap st) k = Some r \<and> groupId r = Some gid) \<longrightarrow>
          map_of (metadataMap st') k = map_of (metadataMap st) k
          \<and> map_of (uploadsDir st') k = map_of (uploadsDir st) k"
    by (auto simp: md dir)
  have 5: "getGroup lc now gid st' = Inl (NotFound ''Group not found'')"
  proof (rule getGroup_not_found)
    show "\<forall>f\<in>set (readdirSync (uploadsDir st')). \<forall>r.
              map_of (metadataMap st') f = Some r \<longrightarrow> groupId r \<noteq> Some gid"
    proof (intro ballI allI impI)
      fix f r assume f: "f \<in> set (readdirSync (uploadsDir st'))"
        and r: "map_of (metadataMap st') f = Some r"
      from f have "map_of (uploadsDir st') f \<noteq> None" by (simp add: in_listing)
      then have "\<not> (\<exists>r. map_of (metadataMap st) f = Some r \<and> groupId r = Some gid)"
        using dir[of f] by (auto split: if_splits)
      moreover have "map_of (metadataMap st) f = Some r"
        using r md[of f] by (auto split: if_splits)
      ultimately show "groupId r \<noteq> Some gid" by auto
    qed
  next
    show "\<forall>k r. map_of (metadataMap st') k = Some r \<and> isExternal r \<longrightarrow> groupId r \<noteq> Some gid"
    proof (intro allI impI)
      fix k r assume h: "map_of (metadataMap st') k = Some r \<and> isExternal r"
      then have "map_of (metadataMap st) k = Some r"
        using md[of k] by (auto split: if_splits)
      then show "groupId r \<noteq> Some gid" using h md[of k] by (auto split: if_splits)
    qed
  qed
  have 6: "(\<forall>k r. map_of (metadataMap st) k = Some r \<and> groupId r = Some gid \<longrightarrow>
            k \<notin> set (readdirSync (uploadsDir st)) \<and> \<not> isExternal r) \<longrightarrow>
        deleteImage gid st = (Inr (GroupDeleted 0), st)"
  proof
    assume "\<forall>k r. map_of (metadataMap st) k = Some r \<and> groupId r = Some gid \<longrightarrow>
            k \<notin> set (readdirSync (uploadsDir st)) \<and> \<not> isExternal r"
    then have "deleteGroup gid st = (0, st)" by (rule deleteGroup_no_members)
    then show "deleteImage gid st = (Inr (GroupDeleted 0), st)"
      using assms by (simp add: deleteImage_def)
  qed
  have snd_di: "snd (deleteImage gid st) = st'" by (simp add: di)
  show ?thesis unfolding snd_di using 1 2 3 4 5 6 by (intro conjI)
qed

theorem delete_group_removes_members_witness:
  "(let r = \<lparr>category = Some ''fun'', description = Some [],
             uploadDate = Some ''2024-01-01T00:00:00.000Z'', mediaType = Some ''image'',
             groupId = Some ''group-1'', order = Some 0, isExternal = False,
             externalUrl = None, embedUrl = None, videoType = None, titleImageId = None\<rparr>;
        st = \<lparr>metadataMap = [(''a.jpg'', r), (''link-1'', r\<lparr>isExternal := True\<rparr>),
                               (''b.jpg'', r\<lparr>groupId := None\<rparr>)],
              uploadsDir = [(''a.jpg'', ''t1''), (''b.jpg'', ''t2'')], backupsDir = []\<rparr>;
        st' = snd (deleteImage ''group-1'' st)
    in prefix ''group-'' ''group-1''
       \<and> fst (deleteImage ''group-1'' st) = Inr (GroupDeleted 2)
       \<and> ''a.jpg'' \<notin> set (readdirSync (uploadsDir st'))
       \<and> map_of (metadataMap st') ''a.jpg'' = None
       \<and> map_of (metadataMap st') ''link-1'' = None
       \<and> map_of (metadataMap st') ''b.jpg'' = Some (r\<lparr>groupId := None\<rparr>)
       \<and> getGroup codeUnitOrder ''now'' ''group-1'' st' = Inl (NotFound ''Group not found'')
       \<and> deleteImage ''group-1'' st' = (Inr (GroupDeleted 0), st'))"
proof -
  define r where "r = \<lparr>category = Some ''fun'', description = Some [],
             uploadDate = Some ''2024-01-01T00:00:00.000Z'', mediaType = Some ''image'',
             groupId = Some ''group-1'', order = Some 0, isExternal = False,
             externalUrl = None, embedUrl = None, videoType = None, titleImageId = None\<rparr>"
  define st where "st = \<lparr>metadataMap = [(''a.jpg'', r), (''link-1'', r\<lparr>isExternal := True\<rparr>),
                               (''b.jpg'', r\<lparr>groupId := None\<rparr>)],
              uploadsDir = [(''a.jpg'', ''t1''), (''b.jpg'', ''t2'')], backupsDir = []\<rparr>"
  define st' where "st' = snd (deleteImage ''group-1'' st)"
  have p: "prefix ''group-'' ''group-1''" by simp
  note t = delete_group_removes_members[OF p, where st = st and lc = codeUnitOrder and now = "''now''"]
  have n: "fst (deleteImage ''group-1'' st) = Inr (GroupDeleted 2)"
    unfolding st_def r_def by code_simp
  have a: "''a.jpg'' \<notin> set (readdirSync (uploadsDir st')) \<and> map_of (metadataMap st') ''a.jpg'' = None"
    using t[THEN conjunct2, THEN conjunct1, rule_format, of "''a.jpg''" r]
    by (simp add: st'_def) (simp add: st_def r_def readdirSync_def)
  have l: "map_of (metadataMap st') ''link-1'' = None"
    using t[THEN conjunct2, THEN conjunct2, THEN conjunct1, rule_format,
            of "''link-1''" "r\<lparr>isExternal := True\<rparr>"]
    by (simp add: st'_def) (simp add: st_def r_def)
  have b: "map_of (metadataMap st') ''b.jpg'' = Some (r\<lparr>groupId := None\<rparr>)"
    using t[THEN conjunct2, THEN conjunct2, THEN conjunct2, THEN conjunct1, rule_format,
            of "''b.jpg''"]
    by (simp add: st'_def) (simp add: st_def r_def)
  have g: "getGroup codeUnitOrder ''now'' ''group-1'' st' = Inl (NotFound ''Group not found'')"
    using t by (simp add: st'_def)
  have z: "deleteImage ''group-1'' st' = (Inr (GroupDeleted 0), st')"
    unfolding st'_def st_def r_def by code_simp
  show ?thesis
    unfolding Let_def using p n a l b g z unfolding st'_def st_def r_def by blast
qed

section \<open>Reordering the members of a group\<close>

lemma indexOf_absent: "indexOf xs x = - 1 \<longleftrightarrow> x \<notin> set xs"
proof (induction xs)
  case Nil
  then show ?case by simp
next
  case (Cons y ys)
  have ge: "indexOf zs x \<ge> - 1" for zs :: "'a list"
    by (induction zs) (auto simp: Let_def)
  have "indexOf ys x + 1 \<noteq> - 1"
    using ge[of ys] by linarith
  then show ?case using Cons by (auto simp: Let_def)
qed

lemma indexOf_first:
  assumes "x \<in> set xs"
  shows "\<exists>i. indexOf xs x = int i \<and> i < length xs \<and> xs ! i = x \<and> (\<forall>j<i. xs ! j \<noteq> x)"
  using assms
proof (induction xs)
  case Nil
  then show ?case by simp
next
  case (Cons y ys)
  show ?case
  proof (cases "y = x")
    case True
    then show ?thesis by (intro exI[of _ 0]) simp
  next
    case False
    then have "x \<in> set ys" using Cons.prems by simp
    then obtain i where i: "indexOf ys x = int i" "i < length ys" "ys ! i = x"
      "\<forall>j<i. ys ! j \<noteq> x"
      using Cons.IH by blast
    have "indexOf (y # ys) x = int (Suc i)"
      using False i(1) by (simp add: Let_def)
    moreover have "\<forall>j<Suc i. (y # ys) ! j \<noteq> x"
      using False i(4) by (auto simp: nth_Cons split: nat.splits)
    ultimately show ?thesis using i(2,3) by (intro exI[of _ "Suc i"]) simp
  qed
qed

lemma orderFileStep_cases:
  "orderFileStep gid fo f md =
     (case map_of md f of
        None \<Rightarrow> md
      | Some r \<Rightarrow>
          if groupId r = Some gid \<and> indexOf fo f \<noteq> - 1
          then AList.update f (r\<lparr>order := Some (indexOf fo f)\<rparr>) md else md)"
  by (auto simp: orderFileStep_def Let_def split: option.splits)

lemma orderLinkStep_cases:
  "orderLinkStep gid fo k md =
     (case map_of md k of
        None \<Rightarrow> md
      | Some r \<Rightarrow>
          if isExternal r \<and> groupId r = Some gid \<and> indexOf fo k \<noteq> - 1
          then AList.update k (r\<lparr>order := Some (indexOf fo k)\<rparr>) md else md)"
  by (auto simp: orderLinkStep_def Let_def split: option.splits)

lemma update_present_keys:
  "map_of md k = Some r \<Longrightarrow> map fst (AList.update k v md) = map fst md"
  by (simp add: AList.update_keys map_of_keys[symmetric] del: map_of_eq_None_iff)
     (metis domI dom_map_of_conv_image_fst)

lemma order_files_fold:
  "map_of (fold (orderFileStep gid fo) fs md) k =
     (case map_of md k of
        None \<Rightarrow> None
      | Some r \<Rightarrow>
          if k \<in> set fs \<and> groupId r = Some gid \<and> indexOf fo k \<noteq> - 1
          then Some (r\<lparr>order := Some (indexOf fo k)\<rparr>) else Some r)"
proof (induction fs arbitrary: md)
  case Nil
  then show ?case by (simp split: option.splits)
next
  case (Cons f fs)
  show ?case
  proof (cases "map_of md f")
    case None
    then have "orderFileStep gid fo f md = md" by (simp add: orderFileStep_cases)
    then show ?thesis using None Cons.IH[of md] by (auto split: option.splits)
  next
    case (Some r)
    show ?thesis
    proof (cases "groupId r = Some gid \<and> indexOf fo f \<noteq> - 1")
      case True
      then have step: "orderFileStep gid fo f md
                         = AList.update f (r\<lparr>order := Some (indexOf fo f)\<rparr>) md"
        using Some by (simp add: orderFileStep_cases)
      show ?thesis
        using True Some Cons.IH[of "AList.update f (r\<lparr>order := Some (indexOf fo f)\<rparr>) md"]
        by (auto simp: step AList.update_conv' split: option.splits)
    next
      case False
      then have "orderFileStep gid fo f md = md" using Some by (auto simp: orderFileStep_cases)
      then show ?thesis using False Some Cons.IH[of md] by (auto split: option.splits)
    qed
  qed
qed

lemma order_links_fold:
  "map_of (fold (orderLinkStep gid fo) ks md) k =
     (case map_of md k of
        None \<Rightarrow> None
      | Some r \<Rightarrow>
          if k \<in> set ks \<and> isExternal r \<and> groupId r = Some gid \<and> indexOf fo k \<noteq> - 1
          then Some (r\<lparr>order := Some (indexOf fo k)\<rparr>) else Some r)"
proof (induction ks arbitrary: md)
  case Nil
  then show ?case by (simp split: option.splits)
next
  case (Cons key ks)
  show ?case
  proof (cases "map_of md key")
    case None
    then have "orderLinkStep gid fo key md = md" by (simp add: orderLinkStep_cases)
    then show ?thesis using None Cons.IH[of md] by (auto split: option.splits)
  next
    case (Some r)
    show ?thesis
    proof (cases "isExternal r \<and> groupId r = Some gid \<and> indexOf fo key \<noteq> - 1")
      case True
      then have step: "orderLinkStep gid fo key md
                         = AList.update key (r\<lparr>order := Some (indexOf fo key)\<rparr>) md"
        using Some by (simp add: orderLinkStep_cases)
      show ?thesis
        using True Some Cons.IH[of "AList.update key (r\<lparr>order := Some (indexOf fo key)\<rparr>) md"]
        by (auto simp: step AList.update_conv' split: option.splits)
    next
      case False
      then have "orderLinkStep gid fo key md = md" using Some by (auto simp: orderLinkStep_cases)
      then show ?thesis using False Some Cons.IH[of md] by (auto split: option.splits)
    qed
  qed
qed

lemma order_files_keys: "map fst (fold (orderFileStep gid fo) fs md) = map fst md"
proof (induction fs arbitrary: md)
  case Nil
  then show ?case by simp
next
  case (Cons f fs)
  have "map fst (orderFileStep gid fo f md) = map fst md"
    by (auto simp: orderFileStep_cases update_present_keys split: option.splits)
  then show ?case using Cons.IH[of "orderFileStep gid fo f md"] by simp
qed

lemma order_links_keys: "map fst (fold (orderLinkStep gid fo) ks md) = map fst md"
proof (induction ks arbitrary: md)
  case Nil
  then show ?case by simp
next
  case (Cons k ks)
  have "map fst (orderLinkStep gid fo k md) = map fst md"
    by (auto simp: orderLinkStep_cases update_present_keys split: option.splits)
  then show ?case using Cons.IH[of "orderLinkStep gid fo k md"] by simp
qed


lemma putGroupOrder_lookup:
  "map_of (metadataMap (snd (putGroupOrder gid (Some fo) st))) k =
     (case map_of (metadataMap st) k of
        None \<Rightarrow> None
      | Some r \<Rightarrow>
          if groupId r = Some gid \<and> (k \<in> set (readdirSync (uploadsDir st)) \<or> isExternal r)
             \<and> indexOf fo k \<noteq> - 1
          then Some (r\<lparr>order := Some (indexOf fo k)\<rparr>) else Some r)"
proof -
  define md1 where "md1 = fold (orderFileStep gid fo) (readdirSync (uploadsDir st)) (metadataMap st)"
  define md2 where "md2 = fold (orderLinkStep gid fo) (map fst md1) md1"
  have res: "metadataMap (snd (putGroupOrder gid (Some fo) st)) = md2"
    by (simp add: putGroupOrder_def Let_def md2_def md1_def)
  have 1: "map_of md1 k =
     (case map_of (metadataMap st) k of
        None \<Rightarrow> None
      | Some r \<Rightarrow>
          if k \<in> set (readdirSync (uploadsDir st)) \<and> groupId r = Some gid \<and> indexOf fo k \<noteq> - 1
          then Some (r\<lparr>order := Some (indexOf fo k)\<rparr>) else Some r)"
    unfolding md1_def by (rule order_files_fold)
  have 2: "map_of md2 k =
     (case map_of md1 k of
        None \<Rightarrow> None
      | Some r \<Rightarrow>
          if k \<in> set (map fst md1) \<and> isExternal r \<and> groupId r = Some gid \<and> indexOf fo k \<noteq> - 1
          then Some (r\<lparr>order := Some (indexOf fo k)\<rparr>) else Some r)"
    unfolding md2_def by (rule order_links_fold)
  have keys: "map_of md1 k \<noteq> None \<Longrightarrow> k \<in> set (map fst md1)"
    using map_of_keys[of k md1] by simp
  show ?thesis
  proof (cases "map_of (metadataMap st) k")
    case None
    then show ?thesis using 1 2 by (simp add: res)
  next
    case (Some r)
    then show ?thesis
      using 1 2 keys unfolding res by (auto split: if_splits)
  qed
qed

text \<open>
  Claim C10. A reorder request with a \<^verbatim>\<open>fileOrder\<close> array succeeds, touches no file and
  adds or removes no metadata key. A record whose id is not in the array is left as it
  was, and so is every record of another group or of no group. A member of the group
  (a file of the uploads directory or an external link) whose id is in the array gets
  the zero-based position of the id's first occurrence as its order, the rest of its
  record unchanged.
\<close>

theorem reorder_frame_and_positions:
  "fst (putGroupOrder gid (Some fileOrder) st) = Inr ''Order updated successfully''
   \<and> uploadsDir (snd (putGroupOrder gid (Some fileOrder) st)) = uploadsDir st
   \<and> map fst (metadataMap (snd (putGroupOrder gid (Some fileOrder) st))) = map fst (metadataMap st)
   \<and> (\<forall>k r. map_of (metadataMap st) k = Some r \<and> k \<notin> set fileOrder \<longrightarrow>
         map_of (metadataMap (snd (putGroupOrder gid (Some fileOrder) st))) k = Some r)
   \<and> (\<forall>k r. map_of (metadataMap st) k = Some r \<and> groupId r \<noteq> Some gid \<longrightarrow>
         map_of (metadataMap (snd (putGroupOrder gid (Some fileOrder) st))) k = Some r)
   \<and> (\<forall>k r. map_of (metadataMap st) k = Some r \<and> groupId r = Some gid
            \<and> (k \<in> set (readdirSync (uploadsDir st)) \<or> isExternal r) \<and> k \<in> set fileOrder \<longrightarrow>
         (\<exists>i. i < length fileOrder \<and> fileOrder ! i = k \<and> (\<forall>j<i. fileOrder ! j \<noteq> k)
              \<and> map_of (metadataMap (snd (putGroupOrder gid (Some fileOrder) st))) k
                  = Some (r\<lparr>order := Some (int i)\<rparr>)))"
proof (intro conjI)
  show "fst (putGroupOrder gid (Some fileOrder) st) = Inr ''Order updated successfully''"
    by (simp add: putGroupOrder_def Let_def)
next
  show "uploadsDir (snd (putGroupOrder gid (Some fileOrder) st)) = uploadsDir st"
    by (simp add: putGroupOrder_def Let_def)
next
  show "map fst (metadataMap (snd (putGroupOrder gid (Some fileOrder) st)))
          = map fst (metadataMap st)"
    by (simp add: putGroupOrder_def Let_def order_links_keys order_files_keys)
next
  show "\<forall>k r. map_of (metadataMap st) k = Some r \<and> k \<notin> set fileOrder \<longrightarrow>
         map_of (metadataMap (snd (putGroupOrder gid (Some fileOrder) st))) k = Some r"
    by (auto simp: putGroupOrder_lookup indexOf_absent)
next
  show "\<forall>k r. map_of (metadataMap st) k = Some r \<and> groupId r \<noteq> Some gid \<longrightarrow>
         map_of (metadataMap (snd (putGroupOrder gid (Some fileOrder) st))) k = Some r"
    by (auto simp: putGroupOrder_lookup)
next
  show "\<forall>k r. map_of (metadataMap st) k = Some r \<and> groupId r = Some gid
            \<and> (k \<in> set (readdirSync (uploadsDir st)) \<or> isExternal r) \<and> k \<in> set fileOrder \<longrightarrow>
         (\<exists>i. i < length fileOrder \<and> fileOrder ! i = k \<and> (\<forall>j<i. fileOrder ! j \<noteq> k)
              \<and> map_of (metadataMap (snd (putGroupOrder gid (Some fileOrder) st))) k
                  = Some (r\<lparr>order := Some (int i)\<rparr>))"
  proof (intro allI impI)
    fix k r
    assume h: "map_of (metadataMap st) k = Some r \<and> groupId r = Some gid
            \<and> (k \<in> set (readdirSync (uploadsDir st)) \<or> isExternal r) \<and> k \<in> set fileOrder"
    then obtain i where i: "indexOf fileOrder k = int i" "i < length fileOrder"
      "fileOrder ! i = k" "\<forall>j<i. fileOrder ! j \<noteq> k"
      using indexOf_first[of k fileOrder] by blast
    have "indexOf fileOrder k \<noteq> - 1" using h by (simp add: indexOf_absent)
    then have "map_of (metadataMap (snd (putGroupOrder gid (Some fileOrder) st))) k
                  = Some (r\<lparr>order := Some (int i)\<rparr>)"
      using h i(1) by (auto simp: putGroupOrder_lookup)
    then show "\<exists>i. i < length fileOrder \<and> fileOrder ! i = k \<and> (\<forall>j<i. fileOrder ! j \<noteq> k)
              \<and> map_of (metadataMap (snd (putGroupOrder gid (Some fileOrder) st))) k
                  = Some (r\<lparr>order := Some (int i)\<rparr>)"
      using i(2,3,4) by blast
  qed
qed

theorem reorder_frame_and_positions_witness:
  "(let r = \<lparr>category = Some ''fun'', description = Some [],
             uploadDate = Some ''2024-01-01T00:00:00.000Z'', mediaType = Some ''image'',
             groupId = Some ''group-1'', order = Some 7, isExternal = False,
             externalUrl = None, embedUrl = None, videoType = None, titleImageId = None\<rparr>;
        st = \<lparr>metadataMap = [(''a.jpg'', r), (''b.jpg'', r), (''c.jpg'', r),
                               (''link-1'', r\<lparr>isExternal := True\<rparr>),
                               (''x.jpg'', r\<lparr>groupId := Some ''group-2''\<rparr>),
                               (''y.jpg'', r\<lparr>groupId := None\<rparr>)],
              uploadsDir = [(''a.jpg'', ''t''), (''b.jpg'', ''t''), (''c.jpg'', ''t''),
                            (''x.jpg'', ''t''), (''y.jpg'', ''t'')],
              backupsDir = []\<rparr>;
        md' = metadataMap (snd (putGroupOrder ''group-1''
                 (Some [''link-1'', ''b.jpg'', ''x.jpg'', ''a.jpg'']) st))
    in map_of md' ''c.jpg'' = Some r
       \<and> map_of md' ''x.jpg'' = Some (r\<lparr>groupId := Some ''group-2''\<rparr>)
       \<and> map_of md' ''y.jpg'' = Some (r\<lparr>groupId := None\<rparr>)
       \<and> map_of md' ''link-1'' = Some (r\<lparr>isExternal := True, order := Some 0\<rparr>)
       \<and> map_of md' ''b.jpg'' = Some (r\<lparr>order := Some 1\<rparr>)
       \<and> map_of md' ''a.jpg'' = Some (r\<lparr>order := Some 3\<rparr>))"
proof -
  define r where "r = \<lparr>category = Some ''fun'', description = Some [],
             uploadDate = Some ''2024-01-01T00:00:00.000Z'', mediaType = Some ''image'',
             groupId = Some ''group-1'', order = Some 7, isExternal = False,
             externalUrl = None, embedUrl = None, videoType = None, titleImageId = None\<rparr>"
  define st where "st = \<lparr>metadataMap = [(''a.jpg'', r), (''b.jpg'', r), (''c.jpg'', r),
                               (''link-1'', r\<lparr>isExternal := True\<rparr>),
                               (''x.jpg'', r\<lparr>groupId := Some ''group-2''\<rparr>),
                               (''y.jpg'', r\<lparr>groupId := None\<rparr>)],
              uploadsDir = [(''a.jpg'', ''t''), (''b.jpg'', ''t''), (''c.jpg'', ''t''),
                            (''x.jpg'', ''t''), (''y.jpg'', ''t'')],
              backupsDir = []\<rparr>"
  define fo where "fo = [''link-1'', ''b.jpg'', ''x.jpg'', ''a.jpg'']"
  define md' where "md' = metadataMap (snd (putGroupOrder ''group-1'' (Some fo) st))"
  note t = reorder_frame_and_positions[of "''group-1''" fo st]
  note unlisted = t[THEN conjunct2, THEN conjunct2, THEN conjunct2, THEN conjunct1, rule_format]
  note other = t[THEN conjunct2, THEN conjunct2, THEN conjunct2, THEN conjunct2, THEN conjunct1,
      rule_format]
  note listed = t[THEN conjunct2, THEN conjunct2, THEN conjunct2, THEN conjunct2, THEN conjunct2,
      rule_format]
  have c: "map_of md' ''c.jpg'' = Some r"
    using unlisted[of "''c.jpg''" r] by (simp add: md'_def) (simp add: st_def fo_def)
  have x: "map_of md' ''x.jpg'' = Some (r\<lparr>groupId := Some ''group-2''\<rparr>)"
    using other[of "''x.jpg''" "r\<lparr>groupId := Some ''group-2''\<rparr>"]
    by (simp add: md'_def) (simp add: st_def)
  have y: "map_of md' ''y.jpg'' = Some (r\<lparr>groupId := None\<rparr>)"
    using other[of "''y.jpg''" "r\<lparr>groupId := None\<rparr>"]
    by (simp add: md'_def) (simp add: st_def)
  have pos: "\<And>i k. i < length fo \<Longrightarrow> fo ! i = k \<Longrightarrow> (\<forall>j<i. fo ! j \<noteq> k) \<Longrightarrow>
               (k = ''link-1'' \<longrightarrow> i = 0) \<and> (k = ''b.jpg'' \<longrightarrow> i = 1) \<and> (k = ''a.jpg'' \<longrightarrow> i = 3)"
  proof -
    fix i k assume "i < length fo" "fo ! i = k" "\<forall>j<i. fo ! j \<noteq> k"
    then have "i \<in> {0, 1, 2, 3}" by (auto simp: fo_def)
    then show "(k = ''link-1'' \<longrightarrow> i = 0) \<and> (k = ''b.jpg'' \<longrightarrow> i = 1) \<and> (k = ''a.jpg'' \<longrightarrow> i = 3)"
      using \<open>fo ! i = k\<close> by (auto simp: fo_def)
  qed
  have l: "map_of md' ''link-1'' = Some (r\<lparr>isExternal := True, order := Some 0\<rparr>)"
  proof -
    have "\<exists>i. i < length fo \<and> fo ! i = ''link-1'' \<and> (\<forall>j<i. fo ! j \<noteq> ''link-1'')
            \<and> map_of md' ''link-1'' = Some (r\<lparr>isExternal := True, order := Some (int i)\<rparr>)"
      using listed[of "''link-1''" "r\<lparr>isExternal := True\<rparr>"]
      by (simp add: md'_def) (simp add: st_def fo_def r_def)
    then show ?thesis using pos by fastforce
  qed
  have b: "map_of md' ''b.jpg'' = Some (r\<lparr>order := Some 1\<rparr>)"
  proof -
    have "\<exists>i. i < length fo \<and> fo ! i = ''b.jpg'' \<and> (\<forall>j<i. fo ! j \<noteq> ''b.jpg'')
            \<and> map_of md' ''b.jpg'' = Some (r\<lparr>order := Some (int i)\<rparr>)"
      using listed[of "''b.jpg''" r]
      by (simp add: md'_def) (simp add: st_def fo_def r_def readdirSync_def)
    then show ?thesis using pos by fastforce
  qed
  have a: "map_of md' ''a.jpg'' = Some (r\<lparr>order := Some 3\<rparr>)"
  proof -
    have "\<exists>i. i < length fo \<and> fo ! i = ''a.jpg'' \<and> (\<forall>j<i. fo ! j \<noteq> ''a.jpg'')
            \<and> map_of md' ''a.jpg'' = Some (r\<lparr>order := Some (int i)\<rparr>)"
      using listed[of "''a.jpg''" r]
      by (simp add: md'_def) (simp add: st_def fo_def r_def readdirSync_def)
    then show ?thesis using pos by fastforce
  qed
  show ?thesis
    unfolding Let_def using c x y l b a unfolding md'_def fo_def st_def r_def by blast
qed

end
